theory Spec2Isabelle
  imports Complex_Main "HOL-Library.List_Lexorder" "HOL-Library.Product_Lexorder"
begin

section \<open>The live generation pipeline (live\_pipeline\_final.py)\<close>

text \<open>
  A shallow embedding of the ingestion, enrichment, aggregation and persistence pipeline.
  Python strings are lists of Unicode code points, so that substring tests, stripping
  and the regular expressions of the source range over the characters Python sees.
  Exceptions are values of the type \<open>error\<close>; a function that can raise returns
  \<open>error + 'a\<close> with \<open>Inl\<close> for the exception.
\<close>

subsection \<open>Strings\<close>

type_synonym pystr = "nat list"

text \<open>An ASCII literal of the source, as code points.\<close>

definition ascii :: "string \<Rightarrow> pystr" where
  "ascii s = map of_char s"

text \<open>\<^verbatim>\<open>kw in s\<close> on strings: \<open>kw\<close> occurs in \<open>s\<close> as a contiguous run.\<close>

fun py_in :: "pystr \<Rightarrow> pystr \<Rightarrow> bool" where
  "py_in kw [] = (kw = [])"
| "py_in kw (c # cs) = (take (length kw) (c # cs) = kw \<or> py_in kw cs)"

text \<open>
  \<^verbatim>\<open>str.isspace\<close> of one character: the code points Python treats as whitespace
  (the ASCII controls 9-13 and 28-32, NEL, NBSP, and the Unicode space separators).
\<close>

definition py_isspace :: "nat \<Rightarrow> bool" where
  "py_isspace c \<longleftrightarrow>
     (9 \<le> c \<and> c \<le> 13) \<or> (28 \<le> c \<and> c \<le> 32) \<or> c = 133 \<or> c = 160 \<or> c = 5760 \<or>
     (8192 \<le> c \<and> c \<le> 8202) \<or> c = 8232 \<or> c = 8233 \<or> c = 8239 \<or> c = 8287 \<or> c = 12288"

text \<open>\<^verbatim>\<open>s.strip()\<close>: whitespace removed at both ends.\<close>

definition py_strip :: "pystr \<Rightarrow> pystr" where
  "py_strip s = rev (dropWhile py_isspace (rev (dropWhile py_isspace s)))"

subsection \<open>Region inference from the unit name\<close>

text \<open>
  The table \<^verbatim>\<open>region_keywords\<close> of \<^verbatim>\<open>infer_region_from_name\<close>, in the
  insertion order of the dictionary literal, which is the order the loop visits. The
  keywords are Chinese place names, given by their code points.
\<close>

definition North :: pystr where "North = ascii ''North''"
definition Other :: pystr where "Other = ascii ''Other''"
definition Unknown :: pystr where "Unknown = ascii ''Unknown''"




subsection \<open>Unit records and region assignment\<close>

text \<open>
  One record per accepted feed row. \<open>DATETIME\<close> is the run's effective instant
  (\<^verbatim>\<open>formatted_datetime\<close>), in seconds; \<open>NET_P\<close> is the decimal value of the
  feed's power string, kept exact: the rounding of binary floating point is not part of
  this embedding.
\<close>

record unit_record =
  DATETIME :: int
  FUEL_TYPE :: pystr
  UNIT_NAME :: pystr
  NET_P :: rat







subsection \<open>The unit-set diff\<close>

text \<open>
  \<^verbatim>\<open>newly_added, missing = current_units - previous_units, previous_units - current_units\<close>
\<close>

definition diff_units :: "'a set \<Rightarrow> 'a set \<Rightarrow> 'a set \<times> 'a set" where
  "diff_units current_units previous_units =
     (current_units - previous_units, previous_units - current_units)"

subsection \<open>Exceptions, floats and JSON values\<close>

text \<open>
  The exception classes the pipeline meets. \<open>JSONDecodeError\<close> is a subclass of
  \<open>ValueError\<close>, so an \<^verbatim>\<open>except ValueError\<close> catches both.
\<close>

datatype error =
  KeyError | IndexError | TypeError | ValueError | OverflowError | AttributeError
  | JSONDecodeError | FileNotFoundError | RequestException

definition is_ValueError :: "error \<Rightarrow> bool" where
  "is_ValueError e \<longleftrightarrow> e = ValueError \<or> e = JSONDecodeError"

definition ebind :: "error + 'a \<Rightarrow> ('a \<Rightarrow> error + 'b) \<Rightarrow> error + 'b" where
  "ebind m f = (case m of Inl e \<Rightarrow> Inl e | Inr x \<Rightarrow> f x)"

text \<open>
  A Python float: a finite value, an infinity or NaN. A finite float is represented by
  the number it denotes; rounding to binary64 is not modelled, only the range is.
\<close>

datatype pyfloat = Finite rat | PosInf | NegInf | NaN

text \<open>
  A decoded JSON document, as \<^verbatim>\<open>json.load\<close> returns it. A dictionary is the list of
  its items in insertion order, with distinct keys.
\<close>

datatype json =
  JNull | JBool bool | JInt int | JFloat pyfloat | JStr pystr
  | JList "json list" | JDict "(pystr \<times> json) list"

text \<open>Truthiness, as \<^verbatim>\<open>if x\<close> and \<^verbatim>\<open>not x\<close> read a value.\<close>

fun truthy :: "json \<Rightarrow> bool" where
  "truthy JNull = False"
| "truthy (JBool b) = b"
| "truthy (JInt n) = (n \<noteq> 0)"
| "truthy (JFloat f) = (f \<noteq> Finite 0)"
| "truthy (JStr s) = (s \<noteq> [])"
| "truthy (JList xs) = (xs \<noteq> [])"
| "truthy (JDict kvs) = (kvs \<noteq> [])"

text \<open>\<^verbatim>\<open>k in d\<close> for a string \<open>k\<close>: key of a dictionary, element of a list, substring of a
  string; any other value is not iterable.\<close>

fun has_key :: "json \<Rightarrow> pystr \<Rightarrow> error + bool" where
  "has_key (JDict kvs) k = Inr (map_of kvs k \<noteq> None)"
| "has_key (JList xs) k = Inr (JStr k \<in> set xs)"
| "has_key (JStr s) k = Inr (py_in k s)"
| "has_key _ k = Inl TypeError"

text \<open>\<^verbatim>\<open>d[k]\<close> for a string \<open>k\<close>: only a dictionary can be indexed by a string.\<close>

fun subscript_key :: "json \<Rightarrow> pystr \<Rightarrow> error + json" where
  "subscript_key (JDict kvs) k = (case map_of kvs k of None \<Rightarrow> Inl KeyError | Some v \<Rightarrow> Inr v)"
| "subscript_key _ k = Inl TypeError"

text \<open>\<^verbatim>\<open>x[0]\<close>.\<close>

fun subscript0 :: "json \<Rightarrow> error + json" where
  "subscript0 (JList []) = Inl IndexError"
| "subscript0 (JList (x # xs)) = Inr x"
| "subscript0 (JStr []) = Inl IndexError"
| "subscript0 (JStr (c # cs)) = Inr (JStr [c])"
| "subscript0 (JDict kvs) = Inl KeyError"
| "subscript0 _ = Inl TypeError"

text \<open>The elements a \<^verbatim>\<open>for\<close> loop or a generator visits: the items of a list, the
  characters of a string, the keys of a dictionary.\<close>

fun py_iter :: "json \<Rightarrow> error + json list" where
  "py_iter (JList xs) = Inr xs"
| "py_iter (JStr s) = Inr (map (\<lambda>c. JStr [c]) s)"
| "py_iter (JDict kvs) = Inr (map (\<lambda>kv. JStr (fst kv)) kvs)"
| "py_iter _ = Inl TypeError"

text \<open>
  \<^verbatim>\<open>for k in key_variants:
    if k in d: return d[k]
return default\<close>
\<close>

fun get_case_insensitive_key :: "json \<Rightarrow> pystr list \<Rightarrow> json \<Rightarrow> error + json" where
  "get_case_insensitive_key d [] dflt = Inr dflt"
| "get_case_insensitive_key d (k # ks) dflt =
     (case has_key d k of
        Inl e \<Rightarrow> Inl e
      | Inr True \<Rightarrow> subscript_key d k
      | Inr False \<Rightarrow> get_case_insensitive_key d ks dflt)"

text \<open>\<^verbatim>\<open>next((x for x in xs if cond(x)), None)\<close>, where the condition may raise.\<close>

fun first_where :: "(json \<Rightarrow> error + bool) \<Rightarrow> json list \<Rightarrow> error + json" where
  "first_where cond [] = Inr JNull"
| "first_where cond (x # xs) =
     (case cond x of
        Inl e \<Rightarrow> Inl e
      | Inr True \<Rightarrow> Inr x
      | Inr False \<Rightarrow> first_where cond xs)"

subsection \<open>Library behaviour taken as given\<close>

text \<open>
  Two tables of the libraries are parameters of the model. \<open>decimal_digit\<close> gives the
  value of each code point that is a Unicode decimal digit (what \<^verbatim>\<open>\d\<close> matches and
  \<^verbatim>\<open>float\<close> accepts as a digit). \<open>pd_to_datetime\<close> stands for
  \<^verbatim>\<open>pd.to_datetime(x).tz_convert(TAIWAN_TZ)\<close>: the instant in seconds, \<open>None\<close> for
  NaT, or the exception raised.
\<close>

record pylib =
  decimal_digit :: "nat \<Rightarrow> nat option"
  pd_to_datetime :: "json \<Rightarrow> error + int option"

subsection \<open>\<^verbatim>\<open>float()\<close>\<close>

text \<open>\<open>digitpart ::= digit (["_"] digit)*\<close>: the digits read and the rest of the string.\<close>

fun digitpart_tail :: "pylib \<Rightarrow> pystr \<Rightarrow> nat list \<times> pystr" where
  "digitpart_tail L [] = ([], [])"
| "digitpart_tail L [c] = (case decimal_digit L c of Some v \<Rightarrow> ([v], []) | None \<Rightarrow> ([], [c]))"
| "digitpart_tail L (c # d # r) =
     (case decimal_digit L c of
        Some v \<Rightarrow> (let (vs, r') = digitpart_tail L (d # r) in (v # vs, r'))
      | None \<Rightarrow>
          if c = 95 then
            (case decimal_digit L d of
               Some v \<Rightarrow> (let (vs, r') = digitpart_tail L r in (v # vs, r'))
             | None \<Rightarrow> ([], c # d # r))
          else ([], c # d # r))"

definition digitpart :: "pylib \<Rightarrow> pystr \<Rightarrow> (nat list \<times> pystr) option" where
  "digitpart L s =
     (case s of
        [] \<Rightarrow> None
      | c # r \<Rightarrow>
          (case decimal_digit L c of
             None \<Rightarrow> None
           | Some v \<Rightarrow> (let (vs, r') = digitpart_tail L r in Some (v # vs, r'))))"

definition digits_nat :: "nat list \<Rightarrow> nat" where
  "digits_nat ds = foldl (\<lambda>a d. 10 * a + d) 0 ds"

text \<open>The number \<open>ip.fp\<close> times ten to the \<open>ex\<close>.\<close>

definition decimal_rat :: "nat list \<Rightarrow> nat list \<Rightarrow> int \<Rightarrow> rat" where
  "decimal_rat ip fp ex =
     (let m = of_nat (digits_nat (ip @ fp)); e = ex - int (length fp)
      in if 0 \<le> e then m * 10 ^ nat e else m / 10 ^ nat (- e))"

text \<open>A leading sign: whether it is a minus, and the rest.\<close>

definition split_sign :: "pystr \<Rightarrow> bool \<times> pystr" where
  "split_sign s =
     (case s of
        [] \<Rightarrow> (False, [])
      | c # r \<Rightarrow> if c = 45 then (True, r) else if c = 43 then (False, r) else (False, s))"

text \<open>\<open>floatnumber ::= ([digitpart] "." digitpart | digitpart ["."]) [("e" | "E") [sign] digitpart]\<close>\<close>

definition parse_floatnumber :: "pylib \<Rightarrow> pystr \<Rightarrow> rat option" where
  "parse_floatnumber L s =
     (let (ip, r1) = (case digitpart L s of None \<Rightarrow> ([], s) | Some p \<Rightarrow> p);
          (fp, r2) = (case r1 of
                        [] \<Rightarrow> ([], [])
                      | c # r \<Rightarrow>
                          if c = 46 then (case digitpart L r of None \<Rightarrow> ([], r) | Some p \<Rightarrow> p)
                          else ([], r1))
      in if ip = [] \<and> fp = [] then None
         else (case r2 of
                 [] \<Rightarrow> Some (decimal_rat ip fp 0)
               | c # r \<Rightarrow>
                   if c = 101 \<or> c = 69 then
                     (let (neg, r3) = split_sign r
                      in case digitpart L r3 of
                           Some (es, []) \<Rightarrow>
                             Some (decimal_rat ip fp
                                    (if neg then - int (digits_nat es) else int (digits_nat es)))
                         | _ \<Rightarrow> None)
                   else None))"

text \<open>Values of magnitude \<open>2^1024 - 2^970\<close> or more are beyond the largest float.\<close>

definition float_limit :: rat where
  "float_limit = 2 ^ 1024 - 2 ^ 970"

definition to_float :: "rat \<Rightarrow> pyfloat" where
  "to_float r = (if float_limit \<le> r then PosInf else if r \<le> - float_limit then NegInf else Finite r)"

definition lower_ascii :: "nat \<Rightarrow> nat" where
  "lower_ascii c = (if 65 \<le> c \<and> c \<le> 90 then c + 32 else c)"

text \<open>The signed decimal number a string denotes once surrounding whitespace is dropped,
  if it denotes one.\<close>

definition decimal_of_str :: "pylib \<Rightarrow> pystr \<Rightarrow> rat option" where
  "decimal_of_str L s =
     (let (neg, u) = split_sign (py_strip s)
      in map_option (\<lambda>r. if neg then - r else r) (parse_floatnumber L u))"

text \<open>\<^verbatim>\<open>float(s)\<close> for a string: surrounding whitespace is dropped, then a sign and
  \<open>inf\<close>, \<open>infinity\<close> or \<open>nan\<close> in any case, or a decimal number; \<open>None\<close> is
  \<open>ValueError\<close>. A number too large in magnitude is an infinity, not an error.\<close>

definition float_of_str :: "pylib \<Rightarrow> pystr \<Rightarrow> pyfloat option" where
  "float_of_str L s =
     (let (neg, u) = split_sign (py_strip s); l = map lower_ascii u
      in if l = ascii ''inf'' \<or> l = ascii ''infinity'' then Some (if neg then NegInf else PosInf)
         else if l = ascii ''nan'' then Some NaN
         else map_option to_float (decimal_of_str L s))"

text \<open>\<^verbatim>\<open>float(n)\<close> for an integer raises \<open>OverflowError\<close> beyond the range.\<close>

definition float_of_int :: "int \<Rightarrow> error + pyfloat" where
  "float_of_int n =
     (if float_limit \<le> \<bar>of_int n\<bar> then Inl OverflowError else Inr (Finite (of_int n)))"

definition py_float :: "pylib \<Rightarrow> json \<Rightarrow> error + pyfloat" where
  "py_float L v =
     (case v of
        JNull \<Rightarrow> Inl TypeError
      | JBool b \<Rightarrow> Inr (Finite (if b then 1 else 0))
      | JInt n \<Rightarrow> float_of_int n
      | JFloat f \<Rightarrow> Inr f
      | JStr s \<Rightarrow> (case float_of_str L s of None \<Rightarrow> Inl ValueError | Some f \<Rightarrow> Inr f)
      | JList xs \<Rightarrow> Inl TypeError
      | JDict kvs \<Rightarrow> Inl TypeError)"

text \<open>\<^verbatim>\<open>re.findall(r'\d+', s)[0]\<close>: the first maximal run of digits, \<open>IndexError\<close>
  when the string has no digit.\<close>

definition first_digit_run :: "pylib \<Rightarrow> pystr \<Rightarrow> error + pystr" where
  "first_digit_run L s =
     (case takeWhile (\<lambda>c. decimal_digit L c \<noteq> None) (dropWhile (\<lambda>c. decimal_digit L c = None) s) of
        [] \<Rightarrow> Inl IndexError
      | ds \<Rightarrow> Inr ds)"

subsection \<open>\<^verbatim>\<open>get_forecast_value\<close>\<close>

text \<open>The three element names the pipeline asks for: mean temperature
  (U+5E73 U+5747 U+6EAB U+5EA6), wind speed (U+98A8 U+901F) and weather phenomenon
  (U+5929 U+6C23 U+73FE U+8C61).\<close>

definition elem_temperature :: pystr where "elem_temperature = [24179, 22343, 28331, 24230]"
definition elem_weather :: pystr where "elem_weather = [22825, 27683, 29694, 35937]"

text \<open>
  Lines 87-113: from the document down to the time blocks of the element. \<open>Inr None\<close>
  is one of the early \<^verbatim>\<open>return None\<close>; \<open>Inr (Some time_blocks)\<close> goes on to the scan.
\<close>

definition name_is :: "pystr list \<Rightarrow> pystr \<Rightarrow> json \<Rightarrow> error + bool" where
  "name_is keys name x = ebind (get_case_insensitive_key x keys JNull) (\<lambda>n. Inr (n = JStr name))"

definition find_time_blocks :: "json \<Rightarrow> pystr \<Rightarrow> pystr \<Rightarrow> error + json option" where
  "find_time_blocks forecast_json town_name element_name =
     ebind (get_case_insensitive_key forecast_json [ascii ''records'', ascii ''Records''] JNull) (\<lambda>records.
     if \<not> truthy records then Inr None else
     ebind (get_case_insensitive_key records [ascii ''locations'', ascii ''Locations''] JNull) (\<lambda>locations_list.
     if \<not> truthy locations_list then Inr None else
     ebind (subscript0 locations_list) (\<lambda>locations_data.
     ebind (get_case_insensitive_key locations_data [ascii ''location'', ascii ''Location''] JNull) (\<lambda>ll.
     ebind (py_iter (if truthy ll then ll else JList [])) (\<lambda>location_list.
     ebind (first_where (name_is [ascii ''locationName'', ascii ''LocationName''] town_name) location_list) (\<lambda>town_data.
     ebind (if truthy town_data
            then get_case_insensitive_key town_data [ascii ''weatherElement'', ascii ''WeatherElement''] JNull
            else Inr JNull) (\<lambda>town_elements.
     ebind (if \<not> truthy town_elements
            then get_case_insensitive_key locations_data [ascii ''weatherElement'', ascii ''WeatherElement''] JNull
            else Inr town_elements) (\<lambda>weather_element_list.
     if \<not> truthy weather_element_list then Inr None else
     ebind (py_iter weather_element_list) (\<lambda>elements.
     ebind (first_where (name_is [ascii ''elementName'', ascii ''ElementName''] element_name) elements) (\<lambda>element_data.
     if \<not> truthy element_data then Inr None else
     ebind (get_case_insensitive_key element_data [ascii ''time'', ascii ''Time''] (JList [])) (\<lambda>time_blocks.
     if \<not> truthy time_blocks then Inr None else Inr (Some time_blocks))))))))))))"

text \<open>
  One round of the loop of lines 118-130: whether the block is the one to \<^verbatim>\<open>break\<close>
  on. A block without a start or an end is passed over; a comparison with NaT is false.
\<close>

definition in_window :: "int option \<Rightarrow> int \<Rightarrow> int option \<Rightarrow> bool" where
  "in_window start_time target_time end_time =
     (case (start_time, end_time) of
        (Some s, Some e) \<Rightarrow> s \<le> target_time \<and> target_time < e
      | _ \<Rightarrow> False)"

definition block_covers :: "pylib \<Rightarrow> int \<Rightarrow> json \<Rightarrow> error + bool" where
  "block_covers L target_time time_block =
     ebind (get_case_insensitive_key time_block [ascii ''startTime'', ascii ''StartTime''] JNull) (\<lambda>start_time_str.
     ebind (get_case_insensitive_key time_block [ascii ''endTime'', ascii ''EndTime''] JNull) (\<lambda>end_time_str.
     if \<not> truthy start_time_str \<or> \<not> truthy end_time_str then Inr False else
     ebind (pd_to_datetime L start_time_str) (\<lambda>start_time.
     ebind (pd_to_datetime L end_time_str) (\<lambda>end_time.
     Inr (in_window start_time target_time end_time)))))"

text \<open>Lines 117-134: the scan, then the fall-back to the first block.\<close>

definition choose_block :: "pylib \<Rightarrow> int \<Rightarrow> json \<Rightarrow> error + json" where
  "choose_block L target_time time_blocks =
     ebind (py_iter time_blocks) (\<lambda>blocks.
     ebind (first_where (block_covers L target_time) blocks) (\<lambda>correct_block.
     if \<not> truthy correct_block \<and> truthy time_blocks then subscript0 time_blocks
     else Inr correct_block))"

text \<open>
  \<^verbatim>\<open>str(value_str).strip() and str(value_str) != '-'\<close>. For a value that is not a
  string, \<^verbatim>\<open>str\<close> gives the text of a number, \<open>True\<close>, \<open>False\<close>, or a bracketed
  list or dictionary: never blank and never a lone dash.
\<close>

definition has_text :: "json \<Rightarrow> bool" where
  "has_text v = (case v of JStr s \<Rightarrow> py_strip s \<noteq> [] \<and> s \<noteq> [45] | _ \<Rightarrow> True)"

text \<open>
  Lines 150-154: \<^verbatim>\<open>float(value_str)\<close>, and on \<open>ValueError\<close> the float of the first
  run of digits. \<open>ValueError\<close> comes from a string only, so \<^verbatim>\<open>re.findall\<close> gets one.
\<close>

definition parse_value :: "pylib \<Rightarrow> json \<Rightarrow> error + pyfloat" where
  "parse_value L value_str =
     (case py_float L value_str of
        Inr f \<Rightarrow> Inr f
      | Inl e \<Rightarrow>
          if e = ValueError then
            (case value_str of
               JStr s \<Rightarrow> ebind (first_digit_run L s) (\<lambda>ds. py_float L (JStr ds))
             | _ \<Rightarrow> Inl TypeError)
          else Inl e)"

text \<open>Lines 137-154: the value of the chosen block.\<close>

definition block_value :: "pylib \<Rightarrow> pystr \<Rightarrow> json \<Rightarrow> error + pyfloat option" where
  "block_value L element_name correct_block =
     (if \<not> truthy correct_block then Inr None else
      ebind (get_case_insensitive_key correct_block [ascii ''elementValue'', ascii ''ElementValue''] (JList [])) (\<lambda>element_values.
      if \<not> truthy element_values then Inr None else
      ebind (subscript0 element_values) (\<lambda>value_dict.
      ebind (if element_name = elem_weather
             then get_case_insensitive_key value_dict [ascii ''WeatherCode'', ascii ''weathercode''] JNull
             else (case value_dict of JDict (kv # kvs) \<Rightarrow> Inr (snd kv) | _ \<Rightarrow> Inr JNull)) (\<lambda>value_str.
      if value_str \<noteq> JNull \<and> has_text value_str
      then ebind (parse_value L value_str) (\<lambda>f. Inr (Some f))
      else Inr None))))"

text \<open>The body of the \<^verbatim>\<open>try\<close>.\<close>

definition lookup_body :: "pylib \<Rightarrow> json \<Rightarrow> pystr \<Rightarrow> pystr \<Rightarrow> int \<Rightarrow> error + pyfloat option" where
  "lookup_body L forecast_json town_name element_name target_time =
     ebind (find_time_blocks forecast_json town_name element_name) (\<lambda>tb.
     case tb of
       None \<Rightarrow> Inr None
     | Some time_blocks \<Rightarrow>
         ebind (choose_block L target_time time_blocks) (block_value L element_name))"

text \<open>\<^verbatim>\<open>except (KeyError, IndexError, TypeError, ValueError): return None\<close>; any other
  exception goes on to the caller.\<close>

definition lookup_caught :: "error \<Rightarrow> bool" where
  "lookup_caught e \<longleftrightarrow> e = KeyError \<or> e = IndexError \<or> e = TypeError \<or> is_ValueError e"

definition except_lookup :: "error + pyfloat option \<Rightarrow> error + pyfloat option" where
  "except_lookup r = (case r of Inl e \<Rightarrow> if lookup_caught e then Inr None else Inl e | Inr v \<Rightarrow> Inr v)"

definition get_forecast_value :: "pylib \<Rightarrow> json \<Rightarrow> pystr \<Rightarrow> pystr \<Rightarrow> int \<Rightarrow> error + pyfloat option" where
  "get_forecast_value L forecast_json town_name element_name target_time =
     except_lookup (lookup_body L forecast_json town_name element_name target_time)"

subsection \<open>A sample library and a sample forecast\<close>

text \<open>
  For evaluating the lookup on concrete documents: the ASCII digits as decimal digits, and
  the instants of three ISO-8601 strings with the Taipei offset (seconds since the epoch);
  every other value is taken as unparsable.
\<close>

definition ascii_digit :: "nat \<Rightarrow> nat option" where
  "ascii_digit c = (if 48 \<le> c \<and> c \<le> 57 then Some (c - 48) else None)"

definition sample_to_datetime :: "json \<Rightarrow> error + int option" where
  "sample_to_datetime j =
     (if j = JStr (ascii ''2024-01-01T08:00:00+08:00'') then Inr (Some 1704067200)
      else if j = JStr (ascii ''2024-01-01T11:00:00+08:00'') then Inr (Some 1704078000)
      else if j = JStr (ascii ''2024-01-01T14:00:00+08:00'') then Inr (Some 1704088800)
      else Inl ValueError)"

definition sample_lib :: pylib where
  "sample_lib = \<lparr>decimal_digit = ascii_digit, pd_to_datetime = sample_to_datetime\<rparr>"

text \<open>The town Hualien City (U+82B1 U+84EE U+5E02) of the county Hualien (U+82B1 U+84EE U+7E23).\<close>

definition hualien_city :: pystr where "hualien_city = [33457, 34030, 24066]"

text \<open>One time block from 08:00 to 11:00 with the given element value.\<close>

definition sample_block :: "pystr \<Rightarrow> pystr \<Rightarrow> json \<Rightarrow> json" where
  "sample_block start_str end_str v =
     JDict [(ascii ''StartTime'', JStr start_str), (ascii ''EndTime'', JStr end_str),
            (ascii ''ElementValue'', JList [v])]"

text \<open>A county document with one town and one element, holding the given time blocks.\<close>

definition sample_document :: "pystr \<Rightarrow> pystr \<Rightarrow> json list \<Rightarrow> json" where
  "sample_document town_name element_name blocks =
     JDict [(ascii ''records'',
       JDict [(ascii ''Locations'',
         JList [JDict [(ascii ''Location'',
           JList [JDict [(ascii ''LocationName'', JStr town_name),
                         (ascii ''WeatherElement'',
                           JList [JDict [(ascii ''ElementName'', JStr element_name),
                                         (ascii ''Time'', JList blocks)]])]])]])])]"

definition sample_forecast :: "json \<Rightarrow> json" where
  "sample_forecast v =
     sample_document hualien_city elem_temperature
       [sample_block (ascii ''2024-01-01T08:00:00+08:00'') (ascii ''2024-01-01T11:00:00+08:00'')
          (JDict [(ascii ''Temperature'', v)])]"

text \<open>Two time blocks, 08:00 to 11:00 at 27.5 and 11:00 to 14:00 at 30.\<close>

definition sample_forecast2 :: json where
  "sample_forecast2 =
     sample_document hualien_city elem_temperature
       [sample_block (ascii ''2024-01-01T08:00:00+08:00'') (ascii ''2024-01-01T11:00:00+08:00'')
          (JDict [(ascii ''Temperature'', JStr (ascii ''27.5''))]),
        sample_block (ascii ''2024-01-01T11:00:00+08:00'') (ascii ''2024-01-01T14:00:00+08:00'')
          (JDict [(ascii ''Temperature'', JStr (ascii ''30''))])]"

text \<open>An integer that JSON can carry and a float cannot.\<close>

definition huge_reading :: int where
  "huge_reading = 10 ^ 400"

subsection \<open>Notions used to state the properties\<close>

text \<open>An operation raises only exceptions of a given kind.\<close>

definition raises_only :: "(error \<Rightarrow> bool) \<Rightarrow> error + 'a \<Rightarrow> bool" where
  "raises_only P m \<longleftrightarrow> (\<forall>e. m = Inl e \<longrightarrow> P e)"

text \<open>The exceptions of reading a document's structure.\<close>

definition structural :: "error \<Rightarrow> bool" where
  "structural e \<longleftrightarrow> e = KeyError \<or> e = IndexError \<or> e = TypeError"

text \<open>An exception the datetime parser raises on some value.\<close>

definition from_parser :: "pylib \<Rightarrow> error \<Rightarrow> bool" where
  "from_parser L e \<longleftrightarrow> (\<exists>j. pd_to_datetime L j = Inl e)"

text \<open>
  The interval of a time block that is a proper window: it carries a start and an end,
  and both parse to instants. A window covers the instants of its half-open interval.
\<close>

definition window_bounds :: "pylib \<Rightarrow> json \<Rightarrow> (int \<times> int) option" where
  "window_bounds L time_block =
     (case (get_case_insensitive_key time_block [ascii ''startTime'', ascii ''StartTime''] JNull,
            get_case_insensitive_key time_block [ascii ''endTime'', ascii ''EndTime''] JNull) of
        (Inr s, Inr e) \<Rightarrow>
          if truthy s \<and> truthy e then
            (case (pd_to_datetime L s, pd_to_datetime L e) of
               (Inr (Some st), Inr (Some en)) \<Rightarrow> Some (st, en)
             | _ \<Rightarrow> None)
          else None
      | _ \<Rightarrow> None)"

definition covers :: "(int \<times> int) option \<Rightarrow> int \<Rightarrow> bool" where
  "covers w t = (case w of Some (s, e) \<Rightarrow> s \<le> t \<and> t < e | None \<Rightarrow> False)"

subsection \<open>\<^verbatim>\<open>get_regional_weather_features\<close>\<close>




text \<open>
  What opening and decoding a JSON file gives: \<open>FileNotFoundError\<close>, a
  \<open>JSONDecodeError\<close> from \<^verbatim>\<open>json.load\<close>, or the decoded contents.
\<close>

datatype 'a file_read = NotFound | Undecodable | Contents 'a

text \<open>\<^verbatim>\<open>s.replace(sub, '')\<close>: every occurrence of \<open>sub\<close>, found left to right,
  is dropped; the counter is the number of characters of a found occurrence still to skip.\<close>

fun remove_from :: "pystr \<Rightarrow> nat \<Rightarrow> pystr \<Rightarrow> pystr" where
  "remove_from sub k [] = []"
| "remove_from sub (Suc k) (c # cs) = remove_from sub k cs"
| "remove_from sub 0 (c # cs) =
     (if sub \<noteq> [] \<and> take (length sub) (c # cs) = sub then remove_from sub (length sub - 1) cs
      else c # remove_from sub 0 cs)"

definition py_remove :: "pystr \<Rightarrow> pystr \<Rightarrow> pystr" where
  "py_remove sub s = remove_from sub 0 s"










text \<open>The feature set of a region; each field is a value or missing.\<close>

record weather_features =
  TEMP_now :: "pyfloat option"
  WIND_now :: "pyfloat option"
  W_CODE_now :: "int option"
  TEMP_future_12h :: "pyfloat option"
  WIND_future_12h :: "pyfloat option"
  W_CODE_future_12h :: "int option"






subsection \<open>Reading the feed rows\<close>

text \<open>
  \<^verbatim>\<open>fuel_map\<close>: the fuel labels of the feed (Chinese) and their bilingual form, the
  same label followed by the English name in parentheses. From top to bottom: solar, wind,
  coal, LNG, hydro, nuclear, co-generation, IPP coal, IPP LNG, oil, diesel, other
  renewable energy, energy storage.
\<close>

definition fuel_map :: "(pystr \<times> pystr) list" where
  "fuel_map =
   [([22826, 38525, 33021], [22826, 38525, 33021] @ ascii ''(Solar)''),
    ([39080, 21147], [39080, 21147] @ ascii ''(Wind)''),
    ([29123, 29028], [29123, 29028] @ ascii ''(Coal)''),
    ([29123, 27683], [29123, 27683] @ ascii ''(LNG)''),
    ([27700, 21147], [27700, 21147] @ ascii ''(Hydro)''),
    ([26680, 33021], [26680, 33021] @ ascii ''(Nuclear)''),
    ([27773, 38651, 20849, 29983], [27773, 38651, 20849, 29983] @ ascii ''(Co-Gen)''),
    ([27665, 29151, 38651, 24288, 45, 29123, 29028],
     [27665, 29151, 38651, 24288, 45, 29123, 29028] @ ascii ''(IPP-Coal)''),
    ([27665, 29151, 38651, 24288, 45, 29123, 27683],
     [27665, 29151, 38651, 24288, 45, 29123, 27683] @ ascii ''(IPP-LNG)''),
    ([29123, 27833], [29123, 27833] @ ascii ''(Oil)''),
    ([36629, 27833], [36629, 27833] @ ascii ''(Diesel)''),
    ([20854, 23427, 20877, 29983, 33021, 28304],
     [20854, 23427, 20877, 29983, 33021, 28304] @ ascii ''(Other Renewable Energy)''),
    ([20786, 33021], [20786, 33021] @ ascii ''(Energy Storage System)'')]"

text \<open>The subtotal marker (U+5C0F U+8A08).\<close>

definition subtotal :: pystr where "subtotal = [23567, 35336]"

text \<open>
  \<^verbatim>\<open>re.search(r'<b>(.*?)</b>', s)\<close>, as the group it captures. From a given
  \<^verbatim>\<open><b>\<close> the lazy group grows one character at a time, never over a newline, until
  \<^verbatim>\<open></b>\<close> follows; the search takes the leftmost \<^verbatim>\<open><b>\<close> for which that succeeds.
\<close>

fun lazy_until :: "pystr \<Rightarrow> pystr \<Rightarrow> pystr option" where
  "lazy_until close [] = (if close = [] then Some [] else None)"
| "lazy_until close (c # cs) =
     (if take (length close) (c # cs) = close then Some []
      else if c = 10 then None
      else map_option ((#) c) (lazy_until close cs))"

fun re_search_bold :: "pystr \<Rightarrow> pystr option" where
  "re_search_bold [] = None"
| "re_search_bold (c # cs) =
     (if take 3 (c # cs) = ascii ''<b>'' then
        (case lazy_until (ascii ''</b>'') (drop 3 (c # cs)) of
           Some g \<Rightarrow> Some g
         | None \<Rightarrow> re_search_bold cs)
      else re_search_bold cs)"

text \<open>
  \<^verbatim>\<open>re.match(r'^-?\d+(\.\d+)?$', s)\<close>: an optional minus, a run of digits, optionally
  a point and a run of digits, and then the end of the string, which \<^verbatim>\<open>$\<close> also
  finds before one final newline.
\<close>

definition is_digit :: "pylib \<Rightarrow> nat \<Rightarrow> bool" where
  "is_digit L c \<longleftrightarrow> decimal_digit L c \<noteq> None"

definition at_end :: "pystr \<Rightarrow> bool" where
  "at_end r \<longleftrightarrow> r = [] \<or> r = [10]"

definition match_net_p :: "pylib \<Rightarrow> pystr \<Rightarrow> bool" where
  "match_net_p L s =
     (let s1 = (case s of [] \<Rightarrow> [] | c # r \<Rightarrow> if c = 45 then r else s);
          ip = takeWhile (is_digit L) s1;
          r1 = dropWhile (is_digit L) s1
      in ip \<noteq> [] \<and>
         (case r1 of
            [] \<Rightarrow> True
          | c # r \<Rightarrow>
              if c = 46 \<and> takeWhile (is_digit L) r \<noteq> [] then at_end (dropWhile (is_digit L) r)
              else at_end r1))"

text \<open>
  Lines 285-292 for one row, whose fields are strings as the feed delivers them.
  \<open>Inr None\<close> is a row passed over; \<open>Inr (Some r)\<close> is the record appended. The power
  is \<^verbatim>\<open>float(net_p_str)\<close>, kept as the exact decimal.
\<close>

definition parse_row :: "pylib \<Rightarrow> int \<Rightarrow> pystr list \<Rightarrow> error + unit_record option" where
  "parse_row L formatted_datetime row =
     (if length row < 5 \<or> py_in subtotal (row ! 2) then Inr None
      else
        let unit_name = py_strip (row ! 2);
            net_p_str = py_remove [44] (row ! 4)
        in case re_search_bold (row ! 0) of
             None \<Rightarrow> Inr None
           | Some label \<Rightarrow>
               if unit_name = [] \<or> py_in (ascii ''Load'') label then Inr None
               else
                 let fuel_type = (case map_of fuel_map label of None \<Rightarrow> label | Some f \<Rightarrow> f)
                 in if match_net_p L net_p_str then
                      (case decimal_of_str L net_p_str of
                         None \<Rightarrow> Inl ValueError
                       | Some net_p \<Rightarrow>
                           Inr (Some \<lparr>DATETIME = formatted_datetime, FUEL_TYPE = fuel_type,
                                      UNIT_NAME = unit_name, NET_P = net_p\<rparr>))
                    else Inr None)"

text \<open>The loop over the rows of the feed, in order.\<close>

fun parse_feed :: "pylib \<Rightarrow> int \<Rightarrow> pystr list list \<Rightarrow> error + unit_record list" where
  "parse_feed L formatted_datetime [] = Inr []"
| "parse_feed L formatted_datetime (row # rows) =
     (case parse_row L formatted_datetime row of
        Inl e \<Rightarrow> Inl e
      | Inr r \<Rightarrow>
          (case parse_feed L formatted_datetime rows of
             Inl e \<Rightarrow> Inl e
           | Inr rs \<Rightarrow> Inr ((case r of None \<Rightarrow> [] | Some x \<Rightarrow> [x]) @ rs)))"

text \<open>\<^verbatim>\<open>current_units = set(new_data_df['UNIT_NAME'])\<close>\<close>

definition current_units :: "unit_record list \<Rightarrow> pystr set" where
  "current_units records = set (map UNIT_NAME records)"

text \<open>
  What is known of the table of decimal digits: the ASCII digits are digits with their
  values, no other ASCII character is a digit, and no whitespace character is one.
\<close>

definition digit_table_ok :: "pylib \<Rightarrow> bool" where
  "digit_table_ok L \<longleftrightarrow>
     (\<forall>c < 128. decimal_digit L c = (if 48 \<le> c \<and> c \<le> 57 then Some (c - 48) else None))
     \<and> (\<forall>c. py_isspace c \<longrightarrow> decimal_digit L c = None)"

text \<open>The conditions under which a row is accepted.\<close>

definition row_accepted :: "pylib \<Rightarrow> pystr list \<Rightarrow> bool" where
  "row_accepted L row \<longleftrightarrow>
     5 \<le> length row
     \<and> py_strip (row ! 2) \<noteq> [] \<and> \<not> py_in subtotal (row ! 2)
     \<and> (\<exists>label. re_search_bold (row ! 0) = Some label \<and> \<not> py_in (ascii ''Load'') label)
     \<and> match_net_p L (py_remove [44] (row ! 4))"

text \<open>
  The strings the pattern of the power matches, by their parts: a sign that is empty or a
  minus, a non-empty run of digits, a fraction that is empty or a point with a non-empty
  run of digits, and an ending that is empty or one newline.
\<close>

definition decimal_shape :: "pylib \<Rightarrow> pystr \<Rightarrow> pystr \<Rightarrow> pystr \<Rightarrow> pystr \<Rightarrow> bool" where
  "decimal_shape L sg ip fr nl \<longleftrightarrow>
     (sg = [] \<or> sg = [45]) \<and> ip \<noteq> [] \<and> (\<forall>c\<in>set ip. is_digit L c)
     \<and> (fr = [] \<or> (\<exists>fp. fr = 46 # fp \<and> fp \<noteq> [] \<and> (\<forall>c\<in>set fp. is_digit L c)))
     \<and> (nl = [] \<or> nl = [10])"

definition digit_values :: "pylib \<Rightarrow> pystr \<Rightarrow> nat list" where
  "digit_values L ds = map (\<lambda>c. the (decimal_digit L c)) ds"

text \<open>
  Sample rows: the unit Linkou 1 (U+6797 U+53E3 \<open>#1\<close>) burning coal (U+71C3 U+7164)
  at \<open>1,234.5\<close>, and the unit Datan 2 (U+5927 U+6F6D \<open>#2\<close>) with the power \<open>N/A\<close>.
\<close>

definition row_linkou :: "pystr list" where
  "row_linkou =
     [ascii ''<b>'' @ [29123, 29028] @ ascii ''</b>'', [], [26519, 21475, 35, 49], [],
      ascii ''1,234.5'']"

definition row_datan :: "pystr list" where
  "row_datan =
     [ascii ''<b>'' @ [29123, 29028] @ ascii ''</b>'', [], [22823, 28525, 35, 50], [],
      ascii ''N/A'']"

definition record_linkou :: "int \<Rightarrow> unit_record" where
  "record_linkou ts =
     \<lparr>DATETIME = ts, FUEL_TYPE = [29123, 29028] @ ascii ''(Coal)'',
      UNIT_NAME = [26519, 21475, 35, 49], NET_P = 2469 / 2\<rparr>"

subsection \<open>Aggregation\<close>

text \<open>
  A row of \<^verbatim>\<open>df_enriched\<close>: the unit record, its region, and the weather features of
  the region (\<open>None\<close> when the enrichment gave the empty dictionary, so that all six
  columns of the row are NaN).
\<close>

record enriched_row =
  source :: unit_record
  REGION :: pystr
  WEATHER :: "weather_features option"

text \<open>A row of \<^verbatim>\<open>aggregated_data\<close>, which is also a row of a persisted table.\<close>

record aggregated_row =
  AGG_DATETIME :: int
  AGG_REGION :: pystr
  AGG_FUEL_TYPE :: pystr
  NET_P_sum :: rat
  AGG_WEATHER :: weather_features

definition group_key :: "enriched_row \<Rightarrow> int \<times> pystr \<times> pystr" where
  "group_key r = (DATETIME (source r), REGION r, FUEL_TYPE (source r))"

text \<open>The aggregation \<^verbatim>\<open>'first'\<close>: the first value of the column in the group that is
  not null; NaN is null.\<close>

definition first_float :: "pyfloat option list \<Rightarrow> pyfloat option" where
  "first_float vs = (case filter (\<lambda>v. v \<noteq> None \<and> v \<noteq> Some NaN) vs of [] \<Rightarrow> None | v # rest \<Rightarrow> v)"

definition first_int :: "int option list \<Rightarrow> int option" where
  "first_int vs = (case filter (\<lambda>v. v \<noteq> None) vs of [] \<Rightarrow> None | v # rest \<Rightarrow> v)"

definition column :: "(weather_features \<Rightarrow> 'a option) \<Rightarrow> enriched_row list \<Rightarrow> 'a option list" where
  "column f rows = map (\<lambda>r. case WEATHER r of None \<Rightarrow> None | Some w \<Rightarrow> f w) rows"

definition aggregate_group :: "int \<times> pystr \<times> pystr \<Rightarrow> enriched_row list \<Rightarrow> aggregated_row" where
  "aggregate_group k rows =
     \<lparr>AGG_DATETIME = fst k, AGG_REGION = fst (snd k), AGG_FUEL_TYPE = snd (snd k),
      NET_P_sum = sum_list (map (\<lambda>r. NET_P (source r)) rows),
      AGG_WEATHER =
        \<lparr>TEMP_now = first_float (column TEMP_now rows),
         WIND_now = first_float (column WIND_now rows),
         W_CODE_now = first_int (column W_CODE_now rows),
         TEMP_future_12h = first_float (column TEMP_future_12h rows),
         WIND_future_12h = first_float (column WIND_future_12h rows),
         W_CODE_future_12h = first_int (column W_CODE_future_12h rows)\<rparr>\<rparr>"

text \<open>
  \<^verbatim>\<open>df_enriched.groupby(['DATETIME', 'REGION', 'FUEL_TYPE']).agg(agg_funcs).reset_index()\<close>:
  one row per key that occurs, the keys in sorted order.
\<close>

definition aggregate :: "enriched_row list \<Rightarrow> aggregated_row list" where
  "aggregate rows =
     map (\<lambda>k. aggregate_group k (filter (\<lambda>r. group_key r = k) rows))
         (sort (remdups (map group_key rows)))"

subsection \<open>Persistence\<close>

text \<open>
  \<^verbatim>\<open>re.sub(r'\(.*\)', '', name)\<close>: from the leftmost opening parenthesis that has a
  closing one after it on the same line, up to the last closing one of that line, the
  text is dropped; the scan goes on behind it. The counter is the number of characters
  of a found match still to skip.
\<close>

fun drop_parens :: "nat \<Rightarrow> pystr \<Rightarrow> pystr" where
  "drop_parens k [] = []"
| "drop_parens (Suc k) (c # cs) = drop_parens k cs"
| "drop_parens 0 (c # cs) =
     (if c = 40 \<and> 41 \<in> set (takeWhile (\<lambda>x. x \<noteq> 10) cs)
      then drop_parens (length (dropWhile (\<lambda>x. x \<noteq> 41) (rev (takeWhile (\<lambda>x. x \<noteq> 10) cs)))) cs
      else c # drop_parens 0 cs)"

text \<open>\<^verbatim>\<open>re.sub(r'[\\/*?:"<>|]', '_', s)\<close>\<close>

definition invalid_char :: "nat \<Rightarrow> bool" where
  "invalid_char c \<longleftrightarrow> c \<in> {92, 47, 42, 63, 58, 34, 60, 62, 124}"

definition sanitize_name :: "pystr \<Rightarrow> pystr" where
  "sanitize_name name =
     py_strip (map (\<lambda>c. if invalid_char c then 95 else c) (drop_parens 0 name))"

text \<open>
  The segmented store: per output file, named by the sanitized region and the sanitized
  fuel type, its rows, or \<open>None\<close> if the file does not exist.
\<close>

type_synonym store = "pystr \<times> pystr \<Rightarrow> aggregated_row list option"

definition table_path :: "pystr \<times> pystr \<Rightarrow> pystr \<times> pystr" where
  "table_path k = (sanitize_name (fst k), sanitize_name (snd k))"

definition region_fuel :: "aggregated_row \<Rightarrow> pystr \<times> pystr" where
  "region_fuel a = (AGG_REGION a, AGG_FUEL_TYPE a)"

text \<open>\<^verbatim>\<open>aggregated_data.groupby(['REGION', 'FUEL_TYPE'])\<close>: the keys in sorted order,
  each with its rows.\<close>

definition groups_by_region_fuel :: "aggregated_row list \<Rightarrow> ((pystr \<times> pystr) \<times> aggregated_row list) list" where
  "groups_by_region_fuel agg =
     map (\<lambda>k. (k, filter (\<lambda>a. region_fuel a = k) agg)) (sort (remdups (map region_fuel agg)))"

text \<open>
  Lines 392-402: an existing table loses its rows of the current timestamp and gets the
  group appended; a new table is the group.
\<close>

definition upsert :: "int \<Rightarrow> aggregated_row list \<Rightarrow> aggregated_row list option \<Rightarrow> aggregated_row list" where
  "upsert formatted_datetime grp existing =
     (case existing of
        None \<Rightarrow> grp
      | Some existing_df \<Rightarrow> filter (\<lambda>r. AGG_DATETIME r \<noteq> formatted_datetime) existing_df @ grp)"

definition persist_group :: "int \<Rightarrow> store \<Rightarrow> (pystr \<times> pystr) \<times> aggregated_row list \<Rightarrow> store" where
  "persist_group formatted_datetime st g =
     st(table_path (fst g) \<mapsto> upsert formatted_datetime (snd g) (st (table_path (fst g))))"

definition persist :: "int \<Rightarrow> aggregated_row list \<Rightarrow> store \<Rightarrow> store" where
  "persist formatted_datetime agg st =
     foldl (persist_group formatted_datetime) st (groups_by_region_fuel agg)"

text \<open>A table holds at most one row per timestamp.\<close>

definition one_row_per_timestamp :: "aggregated_row list \<Rightarrow> bool" where
  "one_row_per_timestamp t \<longleftrightarrow> distinct (map AGG_DATETIME t)"

text \<open>The rows of a table, none for a file that does not exist.\<close>

definition table_rows :: "aggregated_row list option \<Rightarrow> aggregated_row list" where
  "table_rows t = (case t of None \<Rightarrow> [] | Some rows \<Rightarrow> rows)"

text \<open>
  A sample run at 09:30: the Linkou record in the region North, without weather; and a
  store whose North coal table already holds a row of 09:20 and a row of 09:30.
\<close>

definition no_weather :: weather_features where
  "no_weather =
     \<lparr>TEMP_now = None, WIND_now = None, W_CODE_now = None,
      TEMP_future_12h = None, WIND_future_12h = None, W_CODE_future_12h = None\<rparr>"

definition coal_row :: "int \<Rightarrow> rat \<Rightarrow> aggregated_row" where
  "coal_row ts p =
     \<lparr>AGG_DATETIME = ts, AGG_REGION = North, AGG_FUEL_TYPE = [29123, 29028] @ ascii ''(Coal)'',
      NET_P_sum = p, AGG_WEATHER = no_weather\<rparr>"

definition sample_enriched :: "enriched_row list" where
  "sample_enriched = [\<lparr>source = record_linkou 1704072600, REGION = North, WEATHER = None\<rparr>]"

definition sample_store :: store where
  "sample_store p =
     (if p = (North, [29123, 29028])
      then Some [coal_row 1704072000 1000, coal_row 1704072600 1100]
      else None)"

subsection \<open>The pipeline driver\<close>






text \<open>
  One block of the fluctuation log: the timestamp, the number of current units, and the
  added and the missing units (the message lists each sorted).
\<close>

record fluctuation_entry =
  at_time :: int
  plants :: nat
  added :: "pystr set"
  missing :: "pystr set"

text \<open>
  The files the pipeline writes. The state file holds the unit names of the last run, as
  that run dumped them.
\<close>

record world =
  state_file :: "pystr list file_read"
  fluctuation_log :: "fluctuation_entry list"
  unknown_plants_log :: "(int \<times> pystr list) list"
  unit_details_log :: "(int \<times> pystr \<times> pystr \<times> pystr) list"
  demand_csv :: "(int \<times> pyfloat) list"
  tables :: store



text \<open>Lines 301-305: the previous unit set; empty when the state file is absent or does
  not decode.\<close>

definition previous_units :: "pystr list file_read \<Rightarrow> pystr set" where
  "previous_units f = (case f of Contents names \<Rightarrow> set names | _ \<Rightarrow> {})"

text \<open>Lines 307-322: the diff, the log block, and the state file overwritten with the
  current units.\<close>

definition track_units :: "int \<Rightarrow> unit_record list \<Rightarrow> world \<Rightarrow> world" where
  "track_units formatted_datetime records w =
     (let d = diff_units (current_units records) (previous_units (state_file w))
      in w\<lparr>fluctuation_log :=
             fluctuation_log w @
               [\<lparr>at_time = formatted_datetime, plants = card (current_units records),
                 added = fst d, missing = snd d\<rparr>],
           state_file := Contents (remdups (map UNIT_NAME records))\<rparr>)"

text \<open>Lines 338-358: the unknown-plants log and the unit-details log.\<close>

definition log_units :: "int \<Rightarrow> (unit_record \<times> pystr) list \<Rightarrow> world \<Rightarrow> world" where
  "log_units formatted_datetime merged w =
     w\<lparr>unknown_plants_log :=
         unknown_plants_log w @
           [(formatted_datetime, sort (map (\<lambda>row. UNIT_NAME (fst row)) (filter (\<lambda>row. snd row = Unknown) merged)))],
       unit_details_log :=
         unit_details_log w @
           map (\<lambda>row. (DATETIME (fst row), UNIT_NAME (fst row), snd row, FUEL_TYPE (fst row))) merged\<rparr>"









section \<open>Properties\<close>

lemma py_in_iff: "py_in kw s \<longleftrightarrow> (\<exists>pre post. s = pre @ kw @ post)"
proof (induction s)
  case Nil
  then show ?case by auto
next
  case (Cons c cs)
  have "take (length kw) (c # cs) = kw \<longleftrightarrow> (\<exists>post. c # cs = kw @ post)"
    by (metis append_eq_conv_conj append_take_drop_id)
  moreover have "(\<exists>pre post. c # cs = pre @ kw @ post) \<longleftrightarrow>
      (\<exists>post. c # cs = kw @ post) \<or> (\<exists>pre post. cs = pre @ kw @ post)"
  proof
    assume "\<exists>pre post. c # cs = pre @ kw @ post"
    then obtain pre post where e: "c # cs = pre @ kw @ post" by blast
    show "(\<exists>post. c # cs = kw @ post) \<or> (\<exists>pre post. cs = pre @ kw @ post)"
    proof (cases pre)
      case Nil
      with e show ?thesis by auto
    next
      case (Cons p ps)
      with e have "cs = ps @ kw @ post" by simp
      then show ?thesis by blast
    qed
  next
    assume "(\<exists>post. c # cs = kw @ post) \<or> (\<exists>pre post. cs = pre @ kw @ post)"
    then show "\<exists>pre post. c # cs = pre @ kw @ post"
    proof
      assume "\<exists>post. c # cs = kw @ post"
      then obtain post where "c # cs = [] @ kw @ post" by auto
      then show ?thesis by blast
    next
      assume "\<exists>pre post. cs = pre @ kw @ post"
      then obtain pre post where "c # cs = (c # pre) @ kw @ post" by auto
      then show ?thesis by blast
    qed
  qed
  ultimately show ?case using Cons.IH by simp
qed

text \<open>
  C8. The diff of the current against the previous unit set is the exact set difference
  both ways: added are the current units not seen before, missing the previous units not
  seen now. Diffing a set against itself gives two empty sets, and previous \<open>{A, B}\<close>
  against current \<open>{B, C}\<close> gives added \<open>{C}\<close> and missing \<open>{A}\<close>. The log
  block a run appends carries exactly these two sets, of the units of the run's records
  against the units of the state file.
\<close>

theorem diff_units_exact:
  "diff_units cur prev = ({u. u \<in> cur \<and> u \<notin> prev}, {u. u \<in> prev \<and> u \<notin> cur})
   \<and> diff_units U U = ({}, {})
   \<and> diff_units {ascii ''B'', ascii ''C''} {ascii ''A'', ascii ''B''} = ({ascii ''C''}, {ascii ''A''})
   \<and> added (last (fluctuation_log (track_units ts records w)))
       = {u. u \<in> current_units records \<and> u \<notin> previous_units (state_file w)}
   \<and> missing (last (fluctuation_log (track_units ts records w)))
       = {u. u \<in> previous_units (state_file w) \<and> u \<notin> current_units records}"
proof -
  have "diff_units cur prev = ({u. u \<in> cur \<and> u \<notin> prev}, {u. u \<in> prev \<and> u \<notin> cur})"
    by (auto simp: diff_units_def)
  moreover have "diff_units U U = ({}, {})"
    by (simp add: diff_units_def)
  moreover have "diff_units {ascii ''B'', ascii ''C''} {ascii ''A'', ascii ''B''}
      = ({ascii ''C''}, {ascii ''A''})"
    by (auto simp: diff_units_def ascii_def)
  moreover have "added (last (fluctuation_log (track_units ts records w)))
       = {u. u \<in> current_units records \<and> u \<notin> previous_units (state_file w)}"
    by (auto simp: track_units_def diff_units_def Let_def)
  moreover have "missing (last (fluctuation_log (track_units ts records w)))
       = {u. u \<in> previous_units (state_file w) \<and> u \<notin> current_units records}"
    by (auto simp: track_units_def diff_units_def Let_def)
  ultimately show ?thesis by simp
qed

subsection \<open>Region resolution\<close>


lemma find_Some_mem: "find P xs = Some x \<Longrightarrow> x \<in> set xs"
  by (induction xs) (auto split: if_splits)








subsection \<open>The forecast lookup: which exceptions can leave it\<close>

lemma ebind_simps [simp]: "ebind (Inl e) f = Inl e" "ebind (Inr x) f = f x"
  by (simp_all add: ebind_def)

lemma raises_only_Inr [simp]: "raises_only P (Inr x)"
  by (simp add: raises_only_def)

lemma raises_only_Inl [simp]: "raises_only P (Inl e) = P e"
  by (simp add: raises_only_def)

lemma raises_only_ebind:
  "raises_only P m \<Longrightarrow> (\<And>x. raises_only P (f x)) \<Longrightarrow> raises_only P (ebind m f)"
  by (cases m) (auto simp: raises_only_def)

lemma raises_only_if:
  "(c \<Longrightarrow> raises_only P a) \<Longrightarrow> (\<not> c \<Longrightarrow> raises_only P b) \<Longrightarrow> raises_only P (if c then a else b)"
  by simp

lemma raises_only_mono: "raises_only P m \<Longrightarrow> (\<And>e. P e \<Longrightarrow> Q e) \<Longrightarrow> raises_only Q m"
  by (auto simp: raises_only_def)

lemma has_key_raises: "raises_only structural (has_key d k)"
  by (cases d) (simp_all add: structural_def)

lemma subscript_key_raises: "raises_only structural (subscript_key d k)"
  by (cases d) (simp_all add: structural_def split: option.splits)

lemma subscript0_raises: "raises_only structural (subscript0 d)"
  by (cases d rule: subscript0.cases) (simp_all add: structural_def)

lemma py_iter_raises: "raises_only structural (py_iter d)"
  by (cases d) (simp_all add: structural_def)

lemma gcik_raises: "raises_only structural (get_case_insensitive_key d ks dflt)"
proof (induction ks)
  case Nil
  show ?case by simp
next
  case (Cons k ks)
  show ?case
  proof (cases "has_key d k")
    case (Inl e)
    with has_key_raises[of d k] show ?thesis by simp
  next
    case (Inr b)
    with Cons subscript_key_raises[of d k] show ?thesis by (cases b) simp_all
  qed
qed

lemma first_where_raises:
  "(\<And>x. raises_only P (cond x)) \<Longrightarrow> raises_only P (first_where cond xs)"
proof (induction xs)
  case Nil
  show ?case by simp
next
  case (Cons x xs)
  show ?case
  proof (cases "cond x")
    case (Inl e)
    with Cons.prems[of x] show ?thesis by simp
  next
    case (Inr b)
    with Cons show ?thesis by (cases b) simp_all
  qed
qed

lemma name_is_raises: "raises_only structural (name_is keys name x)"
  unfolding name_is_def by (intro raises_only_ebind gcik_raises raises_only_Inr)

lemma find_time_blocks_raises: "raises_only structural (find_time_blocks doc town el)"
  unfolding find_time_blocks_def
  by (intro raises_only_ebind raises_only_if gcik_raises subscript0_raises py_iter_raises
      first_where_raises name_is_raises raises_only_Inr)

lemma pd_raises: "raises_only (from_parser L) (pd_to_datetime L j)"
  by (auto simp: raises_only_def from_parser_def)

lemma block_covers_raises:
  "raises_only (\<lambda>e. structural e \<or> from_parser L e) (block_covers L t b)"
  unfolding block_covers_def
  by (intro raises_only_ebind raises_only_if raises_only_Inr
      raises_only_mono[OF gcik_raises] raises_only_mono[OF pd_raises]) simp_all

lemma choose_block_raises:
  "raises_only (\<lambda>e. structural e \<or> from_parser L e) (choose_block L t tb)"
  unfolding choose_block_def
  by (intro raises_only_ebind raises_only_if raises_only_Inr first_where_raises block_covers_raises
      raises_only_mono[OF py_iter_raises] raises_only_mono[OF subscript0_raises]) simp_all

lemma py_float_raises:
  "raises_only (\<lambda>e. e = TypeError \<or> e = ValueError \<or> e = OverflowError) (py_float L v)"
  by (cases v) (simp_all add: py_float_def float_of_int_def split: option.splits)

lemma first_digit_run_raises: "raises_only structural (first_digit_run L s)"
  by (simp add: first_digit_run_def structural_def split: list.splits)

lemma parse_value_raises:
  "raises_only (\<lambda>e. lookup_caught e \<or> e = OverflowError) (parse_value L v)"
proof (cases "py_float L v")
  case (Inr f)
  then show ?thesis by (simp add: parse_value_def)
next
  case (Inl e)
  from py_float_raises[of L v] Inl have e: "e = TypeError \<or> e = ValueError \<or> e = OverflowError"
    by simp
  show ?thesis
  proof (cases "e = ValueError")
    case False
    with Inl e show ?thesis by (auto simp: parse_value_def lookup_caught_def)
  next
    case True
    show ?thesis
    proof (cases v)
      case (JStr s)
      have "raises_only (\<lambda>e. lookup_caught e \<or> e = OverflowError)
              (ebind (first_digit_run L s) (\<lambda>ds. py_float L (JStr ds)))"
        by (intro raises_only_ebind raises_only_mono[OF first_digit_run_raises]
            raises_only_mono[OF py_float_raises])
          (auto simp: structural_def lookup_caught_def is_ValueError_def)
      with Inl True JStr show ?thesis by (simp add: parse_value_def)
    qed (use Inl True in \<open>simp_all add: parse_value_def lookup_caught_def\<close>)
  qed
qed

lemma block_value_raises:
  "raises_only (\<lambda>e. lookup_caught e \<or> e = OverflowError) (block_value L el b)"
  unfolding block_value_def
  by (intro raises_only_ebind raises_only_if raises_only_Inr parse_value_raises
      raises_only_mono[OF gcik_raises] raises_only_mono[OF subscript0_raises])
    (auto simp: structural_def lookup_caught_def split: json.splits list.splits)

lemma lookup_body_raises:
  "raises_only (\<lambda>e. lookup_caught e \<or> e = OverflowError \<or> from_parser L e)
     (lookup_body L doc town el t)"
proof -
  let ?P = "\<lambda>e. lookup_caught e \<or> e = OverflowError \<or> from_parser L e"
  have a: "raises_only ?P (find_time_blocks doc town el)"
    by (rule raises_only_mono[OF find_time_blocks_raises])
      (auto simp: structural_def lookup_caught_def)
  have b: "raises_only ?P (ebind (choose_block L t tb) (block_value L el))" for tb
    by (intro raises_only_ebind raises_only_mono[OF choose_block_raises]
        raises_only_mono[OF block_value_raises])
      (auto simp: structural_def lookup_caught_def)
  show ?thesis
    unfolding lookup_body_def
    by (rule raises_only_ebind[OF a]) (simp add: b split: option.splits)
qed


text \<open>
  C1 (as amended). For every library behaviour, document, town, element and instant the
  lookup either returns (a float, which may be an infinity or NaN when the value says so,
  or the missing marker \<open>None\<close>) or lets an exception through that is none of
  \<open>KeyError\<close>, \<open>IndexError\<close>, \<open>TypeError\<close>, \<open>ValueError\<close>: such an
  exception is an \<open>OverflowError\<close> or one raised by the datetime parser. Whatever
  the document lacks (location, element, time windows, numeric content), no exception of
  the four caught classes reaches the caller.
\<close>

theorem get_forecast_value_errors:
  "(\<exists>r. get_forecast_value L doc town el t = Inr r)
   \<or> (\<exists>e. get_forecast_value L doc town el t = Inl e \<and> \<not> lookup_caught e
          \<and> (e = OverflowError \<or> (\<exists>j. pd_to_datetime L j = Inl e)))"
proof (cases "lookup_body L doc town el t")
  case (Inr r)
  then show ?thesis by (simp add: get_forecast_value_def except_lookup_def)
next
  case (Inl e)
  with lookup_body_raises[of L doc town el t]
  have "lookup_caught e \<or> e = OverflowError \<or> from_parser L e" by simp
  with Inl show ?thesis
    by (auto simp: get_forecast_value_def except_lookup_def from_parser_def)
qed

subsection \<open>The forecast lookup: window selection\<close>

lemma ebind_Inr_E:
  assumes "ebind m f = Inr y"
  obtains x where "m = Inr x" "f x = Inr y"
  using assms by (cases m) (auto simp: ebind_def)

lemma find_time_blocks_truthy:
  "find_time_blocks doc town el = Inr (Some tb) \<Longrightarrow> truthy tb"
  unfolding find_time_blocks_def
  by (auto elim!: ebind_Inr_E split: if_splits)

lemma gcik_truthy_dict:
  "get_case_insensitive_key b ks JNull = Inr s \<Longrightarrow> truthy s \<Longrightarrow> truthy b"
proof (induction ks)
  case Nil
  then show ?case by simp
next
  case (Cons k ks)
  show ?case
  proof (cases b)
    case (JDict kvs)
    show ?thesis
    proof (cases kvs)
      case Nil
      with JDict Cons show ?thesis by simp
    next
      case (Cons kv kvs')
      with JDict show ?thesis by simp
    qed
  next
    case (JList xs)
    with Cons show ?thesis by (cases "JStr k \<in> set xs") auto
  next
    case (JStr s')
    with Cons show ?thesis by (cases "py_in k s'") auto
  qed (use Cons in simp_all)
qed

lemma window_block_covers:
  "window_bounds L b = Some w \<Longrightarrow> block_covers L t b = Inr (covers (Some w) t)"
  unfolding window_bounds_def block_covers_def covers_def in_window_def
  by (auto simp del: get_case_insensitive_key.simps
      split: sum.splits if_splits option.splits prod.splits)

lemma window_truthy:
  assumes "window_bounds L b = Some w"
  shows "truthy b"
proof -
  from assms obtain s where
    "get_case_insensitive_key b [ascii ''startTime'', ascii ''StartTime''] JNull = Inr s" "truthy s"
    unfolding window_bounds_def
    by (auto simp del: get_case_insensitive_key.simps split: sum.splits if_splits)
  then show ?thesis by (rule gcik_truthy_dict)
qed

lemma first_where_windows:
  "\<forall>b\<in>set bs. window_bounds L b \<noteq> None \<Longrightarrow>
   first_where (block_covers L t) bs =
     Inr (case find (\<lambda>b. covers (window_bounds L b) t) bs of Some b \<Rightarrow> b | None \<Rightarrow> JNull)"
proof (induction bs)
  case Nil
  show ?case by simp
next
  case (Cons b bs)
  then obtain w where w: "window_bounds L b = Some w" by auto
  from window_block_covers[OF w, of t] Cons show ?case
    by (cases "covers (Some w) t") (simp_all add: w)
qed

lemma choose_block_windows:
  assumes "\<forall>b\<in>set bs. window_bounds L b \<noteq> None" and "bs \<noteq> []"
  shows "choose_block L t (JList bs) =
     Inr (case find (\<lambda>b. covers (window_bounds L b) t) bs of Some b \<Rightarrow> b | None \<Rightarrow> hd bs)"
proof (cases "find (\<lambda>b. covers (window_bounds L b) t) bs")
  case None
  with assms first_where_windows[OF assms(1), of t] show ?thesis
    by (cases bs) (simp_all add: choose_block_def)
next
  case (Some b)
  then have "b \<in> set bs" by (rule find_Some_mem)
  with assms(1) obtain w where "window_bounds L b = Some w" by auto
  then have "truthy b" by (rule window_truthy)
  with Some first_where_windows[OF assms(1), of t] show ?thesis
    by (simp add: choose_block_def)
qed


text \<open>
  C3. When the element's time blocks are windows (each has a start and an end that parse
  to instants), the lookup returns what it reads from the first window, in list order,
  whose half-open interval from start to end contains the target instant; if no window
  contains it, from the first window of the list. (The value read is subject to the same
  handler: a value that cannot be read gives \<open>None\<close>.)
\<close>

theorem window_selection:
  assumes "find_time_blocks doc town el = Inr (Some (JList blocks))"
    and "\<forall>b\<in>set blocks. window_bounds L b \<noteq> None"
  shows "get_forecast_value L doc town el t =
     except_lookup (block_value L el
       (case find (\<lambda>b. covers (window_bounds L b) t) blocks of
          Some b \<Rightarrow> b
        | None \<Rightarrow> hd blocks))"
proof -
  from find_time_blocks_truthy[OF assms(1)] have "blocks \<noteq> []" by simp
  from choose_block_windows[OF assms(2) this, of t] assms(1) show ?thesis
    by (simp add: get_forecast_value_def lookup_body_def)
qed

subsection \<open>The forecast lookup on the sample documents\<close>

lemma sample_document_blocks:
  "find_time_blocks (sample_document town el (b # bs)) town el = Inr (Some (JList (b # bs)))"
  by (simp add: find_time_blocks_def sample_document_def name_is_def ebind_def ascii_def)

lemma sample_block_bounds:
  "window_bounds sample_lib
     (sample_block (ascii ''2024-01-01T08:00:00+08:00'') (ascii ''2024-01-01T11:00:00+08:00'') v)
     = Some (1704067200, 1704078000)"
  "window_bounds sample_lib
     (sample_block (ascii ''2024-01-01T11:00:00+08:00'') (ascii ''2024-01-01T14:00:00+08:00'') v)
     = Some (1704078000, 1704088800)"
  by (simp_all add: window_bounds_def sample_block_def sample_lib_def sample_to_datetime_def ascii_def)

lemma sample_float:
  "float_of_str sample_lib (ascii ''27.5'') = Some (Finite (55 / 2))"
  "float_of_str sample_lib (ascii ''30'') = Some (Finite 30)"
  "float_of_str sample_lib (ascii ''nan'') = Some NaN"
  by (simp_all add: float_of_str_def decimal_of_str_def ascii_def py_strip_def py_isspace_def split_sign_def
      lower_ascii_def parse_floatnumber_def digitpart_def sample_lib_def ascii_digit_def
      decimal_rat_def digits_nat_def to_float_def float_limit_def)

lemma sample_parse:
  "parse_value sample_lib (JStr (ascii ''27.5'')) = Inr (Finite (55 / 2))"
  "parse_value sample_lib (JStr (ascii ''30'')) = Inr (Finite 30)"
  "parse_value sample_lib (JStr (ascii ''nan'')) = Inr NaN"
  by (simp_all add: parse_value_def py_float_def sample_float)

lemma sample_text:
  "has_text (JStr (ascii ''27.5''))" "has_text (JStr (ascii ''30''))" "has_text (JStr (ascii ''nan''))"
  by (simp_all add: has_text_def py_strip_def py_isspace_def ascii_def)

lemma sample_block_value:
  "has_text (JStr x) \<Longrightarrow>
   block_value L elem_temperature (sample_block s e (JDict [(k, JStr x)])) =
     ebind (parse_value L (JStr x)) (\<lambda>f. Inr (Some f))"
  by (simp add: block_value_def sample_block_def ebind_def elem_temperature_def elem_weather_def
      ascii_def)


text \<open>
  At 09:30 the first window holds and gives 27.5; at 12:00 the second gives 30; at 23:00
  no window holds and the first window's 27.5 is returned.
\<close>

theorem window_selection_witness:
  "get_forecast_value sample_lib sample_forecast2 hualien_city elem_temperature 1704072600
     = Inr (Some (Finite (55 / 2)))
   \<and> get_forecast_value sample_lib sample_forecast2 hualien_city elem_temperature 1704081600
     = Inr (Some (Finite 30))
   \<and> get_forecast_value sample_lib sample_forecast2 hualien_city elem_temperature 1704121200
     = Inr (Some (Finite (55 / 2)))"
proof -
  let ?b1 = "sample_block (ascii ''2024-01-01T08:00:00+08:00'') (ascii ''2024-01-01T11:00:00+08:00'')
          (JDict [(ascii ''Temperature'', JStr (ascii ''27.5''))])"
  let ?b2 = "sample_block (ascii ''2024-01-01T11:00:00+08:00'') (ascii ''2024-01-01T14:00:00+08:00'')
          (JDict [(ascii ''Temperature'', JStr (ascii ''30''))])"
  have blocks: "find_time_blocks sample_forecast2 hualien_city elem_temperature
      = Inr (Some (JList [?b1, ?b2]))"
    unfolding sample_forecast2_def by (rule sample_document_blocks)
  have windows: "\<forall>b\<in>set [?b1, ?b2]. window_bounds sample_lib b \<noteq> None"
    by (simp add: sample_block_bounds)
  have v1: "except_lookup (block_value sample_lib elem_temperature ?b1) = Inr (Some (Finite (55 / 2)))"
    by (simp add: sample_block_value sample_parse sample_text except_lookup_def)
  have v2: "except_lookup (block_value sample_lib elem_temperature ?b2) = Inr (Some (Finite 30))"
    by (simp add: sample_block_value sample_parse sample_text except_lookup_def)
  note sel = window_selection[OF blocks windows]
  have "get_forecast_value sample_lib sample_forecast2 hualien_city elem_temperature 1704072600
     = Inr (Some (Finite (55 / 2)))"
    using sel[of 1704072600] v1 by (simp add: sample_block_bounds covers_def)
  moreover have "get_forecast_value sample_lib sample_forecast2 hualien_city elem_temperature 1704081600
     = Inr (Some (Finite 30))"
    using sel[of 1704081600] v2 by (simp add: sample_block_bounds covers_def)
  moreover have "get_forecast_value sample_lib sample_forecast2 hualien_city elem_temperature 1704121200
     = Inr (Some (Finite (55 / 2)))"
    using sel[of 1704121200] v1 by (simp add: sample_block_bounds covers_def)
  ultimately show ?thesis by simp
qed


text \<open>
  The claim as first stated promised a finite float or \<open>None\<close>, and no exception. A
  value \<open>nan\<close> is returned as NaN, and an integer value beyond the float range makes
  \<^verbatim>\<open>float\<close> raise \<open>OverflowError\<close>, which the handler does not list.
\<close>

theorem get_forecast_value_counterexample:
  "get_forecast_value sample_lib (sample_forecast (JStr (ascii ''nan''))) hualien_city
      elem_temperature 1704072600 = Inr (Some NaN)
   \<and> get_forecast_value sample_lib (sample_forecast (JInt huge_reading)) hualien_city
      elem_temperature 1704072600 = Inl OverflowError"
proof -
  have blocks: "find_time_blocks (sample_forecast v) hualien_city elem_temperature
      = Inr (Some (JList [sample_block (ascii ''2024-01-01T08:00:00+08:00'')
            (ascii ''2024-01-01T11:00:00+08:00'') (JDict [(ascii ''Temperature'', v)])]))" for v
    unfolding sample_forecast_def by (rule sample_document_blocks)
  have choose: "choose_block sample_lib 1704072600 (JList [sample_block (ascii ''2024-01-01T08:00:00+08:00'')
            (ascii ''2024-01-01T11:00:00+08:00'') v])
      = Inr (sample_block (ascii ''2024-01-01T08:00:00+08:00'') (ascii ''2024-01-01T11:00:00+08:00'') v)" for v
    by (simp add: choose_block_def block_covers_def sample_block_def ebind_def ascii_def
        sample_lib_def sample_to_datetime_def in_window_def)
  have nan: "block_value sample_lib elem_temperature
      (sample_block s e (JDict [(ascii ''Temperature'', JStr (ascii ''nan''))])) = Inr (Some NaN)" for s e
    by (simp add: sample_block_value sample_parse sample_text)
  have big: "block_value sample_lib elem_temperature
      (sample_block s e (JDict [(ascii ''Temperature'', JInt huge_reading)])) = Inl OverflowError" for s e
    by (simp add: block_value_def sample_block_def ebind_def elem_temperature_def elem_weather_def
        has_text_def parse_value_def py_float_def float_of_int_def float_limit_def huge_reading_def
        ascii_def)
  show ?thesis
    by (simp add: get_forecast_value_def lookup_body_def blocks choose nan big except_lookup_def
        lookup_caught_def is_ValueError_def)
qed

subsection \<open>Weather enrichment: the missing-value policy\<close>

















subsection \<open>The feed-row filter\<close>

lemma table_nondigits:
  assumes "digit_table_ok L"
  shows "\<not> is_digit L 45" "\<not> is_digit L 46" "\<not> is_digit L 10" "\<not> is_digit L 95"
    "\<not> is_digit L 101" "\<not> is_digit L 69" "\<not> is_digit L 43"
  using assms by (simp_all add: digit_table_ok_def is_digit_def)

lemma digit_not_space: "digit_table_ok L \<Longrightarrow> is_digit L c \<Longrightarrow> \<not> py_isspace c"
  by (auto simp: digit_table_ok_def is_digit_def)

lemma takeWhile_run:
  "\<forall>c\<in>set ds. P c \<Longrightarrow> (r = [] \<or> \<not> P (hd r)) \<Longrightarrow> takeWhile P (ds @ r) = ds"
  by (induction ds) (auto simp: takeWhile_eq_Nil_iff)

lemma dropWhile_run:
  "\<forall>c\<in>set ds. P c \<Longrightarrow> (r = [] \<or> \<not> P (hd r)) \<Longrightarrow> dropWhile P (ds @ r) = r"
  by (induction ds) (auto simp: dropWhile_eq_self_iff)

lemma match_net_p_shape:
  assumes ok: "digit_table_ok L" and sh: "decimal_shape L sg ip fr nl"
  shows "match_net_p L (sg @ ip @ fr @ nl)"
proof -
  note nd = table_nondigits[OF ok]
  from sh obtain d ds where ip: "ip = d # ds" "is_digit L d" "\<forall>c\<in>set ip. is_digit L c"
    by (cases ip) (auto simp: decimal_shape_def)
  have d45: "d \<noteq> 45" using ip nd by auto
  have s1: "(case sg @ ip @ fr @ nl of [] \<Rightarrow> [] | c # r \<Rightarrow> if c = 45 then r else sg @ ip @ fr @ nl)
      = ip @ fr @ nl"
    using sh ip d45 by (auto simp: decimal_shape_def)
  have hd_ok: "fr @ nl = [] \<or> \<not> is_digit L (hd (fr @ nl))"
    using sh nd by (auto simp: decimal_shape_def)
  have tw: "takeWhile (is_digit L) (ip @ fr @ nl) = ip"
    using takeWhile_run[OF ip(3) hd_ok] by simp
  have dw: "dropWhile (is_digit L) (ip @ fr @ nl) = fr @ nl"
    using dropWhile_run[OF ip(3) hd_ok] by simp
  show ?thesis
  proof (cases "fr = []")
    case True
    with sh s1 tw dw ip show ?thesis
      unfolding match_net_p_def Let_def s1 tw dw
      by (auto simp: decimal_shape_def at_end_def)
  next
    case False
    with sh obtain fp where fp: "fr = 46 # fp" "fp \<noteq> []" "\<forall>c\<in>set fp. is_digit L c"
      by (auto simp: decimal_shape_def)
    have nl_ok: "nl = [] \<or> \<not> is_digit L (hd nl)"
      using sh nd by (auto simp: decimal_shape_def)
    have tw2: "takeWhile (is_digit L) (fp @ nl) = fp" by (rule takeWhile_run[OF fp(3) nl_ok])
    have dw2: "dropWhile (is_digit L) (fp @ nl) = nl" by (rule dropWhile_run[OF fp(3) nl_ok])
    show ?thesis
      unfolding match_net_p_def Let_def s1 tw dw
      using sh fp ip tw2 dw2 by (simp add: decimal_shape_def at_end_def)
  qed
qed

lemma shape_of_match:
  assumes ok: "digit_table_ok L" and m: "match_net_p L s"
  shows "\<exists>sg ip fr nl. s = sg @ ip @ fr @ nl \<and> decimal_shape L sg ip fr nl"
proof -
  define s1 where "s1 = (case s of [] \<Rightarrow> [] | c # r \<Rightarrow> if c = 45 then r else s)"
  define sg where "sg = (case s of [] \<Rightarrow> [] | c # r \<Rightarrow> if c = 45 then [45::nat] else [])"
  define ip where "ip = takeWhile (is_digit L) s1"
  define r1 where "r1 = dropWhile (is_digit L) s1"
  have s: "s = sg @ s1" by (auto simp: s1_def sg_def split: list.splits)
  have sg: "sg = [] \<or> sg = [45]" by (auto simp: sg_def split: list.splits)
  have s1: "s1 = ip @ r1" by (simp add: ip_def r1_def)
  have ipd: "\<forall>c\<in>set ip. is_digit L c" unfolding ip_def by (auto dest: set_takeWhileD)
  from m have ip: "ip \<noteq> []"
    and r: "(case r1 of [] \<Rightarrow> True | c # r \<Rightarrow>
              if c = 46 \<and> takeWhile (is_digit L) r \<noteq> [] then at_end (dropWhile (is_digit L) r)
              else at_end r1)"
    unfolding match_net_p_def Let_def s1_def[symmetric] ip_def[symmetric] r1_def[symmetric]
    by auto
  show ?thesis
  proof (cases r1)
    case Nil
    have "decimal_shape L sg ip [] []" using sg ip ipd by (simp add: decimal_shape_def)
    moreover have "s = sg @ ip @ [] @ []" using s s1 Nil by simp
    ultimately show ?thesis by blast
  next
    case (Cons c r)
    show ?thesis
    proof (cases "c = 46 \<and> takeWhile (is_digit L) r \<noteq> []")
      case True
      define fp where "fp = takeWhile (is_digit L) r"
      define nl where "nl = dropWhile (is_digit L) r"
      have "at_end nl" using r Cons True by (simp add: nl_def)
      moreover have "\<forall>c\<in>set fp. is_digit L c" unfolding fp_def by (auto dest: set_takeWhileD)
      ultimately have "decimal_shape L sg ip (46 # fp) nl"
        using sg ip ipd True by (simp add: decimal_shape_def at_end_def fp_def)
      moreover have "s = sg @ ip @ (46 # fp) @ nl"
        using s s1 Cons True by (simp add: fp_def nl_def)
      ultimately show ?thesis by blast
    next
      case False
      with r Cons have "at_end r1" by auto
      then have "decimal_shape L sg ip [] r1"
        using sg ip ipd by (simp add: decimal_shape_def at_end_def)
      moreover have "s = sg @ ip @ [] @ r1" using s s1 by simp
      ultimately show ?thesis by blast
    qed
  qed
qed

lemma match_net_p_iff:
  assumes "digit_table_ok L"
  shows "match_net_p L s \<longleftrightarrow> (\<exists>sg ip fr nl. s = sg @ ip @ fr @ nl \<and> decimal_shape L sg ip fr nl)"
proof
  assume "match_net_p L s"
  then show "\<exists>sg ip fr nl. s = sg @ ip @ fr @ nl \<and> decimal_shape L sg ip fr nl"
    by (rule shape_of_match[OF assms])
next
  assume "\<exists>sg ip fr nl. s = sg @ ip @ fr @ nl \<and> decimal_shape L sg ip fr nl"
  then obtain sg ip fr nl where "s = sg @ ip @ fr @ nl" "decimal_shape L sg ip fr nl" by blast
  then show "match_net_p L s" using match_net_p_shape[OF assms] by simp
qed

lemma digitpart_tail_stop:
  "r = [] \<or> (\<not> is_digit L (hd r) \<and> hd r \<noteq> 95) \<Longrightarrow> digitpart_tail L r = ([], r)"
  by (cases "(L, r)" rule: digitpart_tail.cases) (auto simp: is_digit_def)

lemma digitpart_tail_run:
  "\<forall>c\<in>set ds. is_digit L c \<Longrightarrow> r = [] \<or> (\<not> is_digit L (hd r) \<and> hd r \<noteq> 95) \<Longrightarrow>
   digitpart_tail L (ds @ r) = (digit_values L ds, r)"
proof (induction ds)
  case Nil
  then show ?case by (simp add: digitpart_tail_stop digit_values_def)
next
  case (Cons x ds)
  from Cons.prems obtain v where v: "decimal_digit L x = Some v" by (auto simp: is_digit_def)
  show ?case
  proof (cases "ds @ r")
    case Nil
    with v show ?thesis by (simp add: digit_values_def)
  next
    case (Cons d rest)
    have "digitpart_tail L (x # d # rest) = (v # fst (digitpart_tail L (d # rest)), snd (digitpart_tail L (d # rest)))"
      using v by (simp add: case_prod_beta)
    also have "digitpart_tail L (d # rest) = (digit_values L ds, r)"
      using Cons.IH Cons.prems Cons by simp
    finally show ?thesis using Cons v by (simp add: digit_values_def)
  qed
qed

lemma digitpart_run:
  assumes "ds \<noteq> []" "\<forall>c\<in>set ds. is_digit L c" "r = [] \<or> (\<not> is_digit L (hd r) \<and> hd r \<noteq> 95)"
  shows "digitpart L (ds @ r) = Some (digit_values L ds, r)"
proof -
  from assms obtain x xs where ds: "ds = x # xs" by (cases ds) auto
  with assms obtain v where v: "decimal_digit L x = Some v" by (auto simp: is_digit_def)
  have "digitpart_tail L (xs @ r) = (digit_values L xs, r)"
    using assms ds by (intro digitpart_tail_run) auto
  with ds v show ?thesis by (simp add: digitpart_def digit_values_def)
qed

lemma digit_values_nonempty: "ds \<noteq> [] \<Longrightarrow> digit_values L ds \<noteq> []"
  by (simp add: digit_values_def)

lemma parse_floatnumber_shape:
  assumes ok: "digit_table_ok L" and sh: "decimal_shape L sg ip fr []"
  shows "parse_floatnumber L (ip @ fr) =
     Some (decimal_rat (digit_values L ip) (digit_values L (drop 1 fr)) 0)"
proof -
  note nd = table_nondigits[OF ok]
  from sh have ip: "ip \<noteq> []" "\<forall>c\<in>set ip. is_digit L c" by (auto simp: decimal_shape_def)
  show ?thesis
  proof (cases "fr = []")
    case True
    have "digitpart L (ip @ []) = Some (digit_values L ip, [])"
      by (rule digitpart_run[OF ip]) simp
    with True ip show ?thesis
      by (simp add: parse_floatnumber_def digit_values_nonempty digit_values_def[of L "[]"])
  next
    case False
    with sh obtain fp where fp: "fr = 46 # fp" "fp \<noteq> []" "\<forall>c\<in>set fp. is_digit L c"
      by (auto simp: decimal_shape_def)
    have a: "digitpart L (ip @ 46 # fp) = Some (digit_values L ip, 46 # fp)"
      by (rule digitpart_run[OF ip]) (use nd in auto)
    have "digitpart L (fp @ []) = Some (digit_values L fp, [])"
      by (rule digitpart_run[OF fp(2,3)]) simp
    then have b: "digitpart L fp = Some (digit_values L fp, [])" by simp
    show ?thesis
      using ip fp by (simp add: parse_floatnumber_def a b digit_values_nonempty)
  qed
qed

lemma py_strip_body:
  assumes "body \<noteq> []" "\<not> py_isspace (hd body)" "\<not> py_isspace (last body)" "nl = [] \<or> nl = [10]"
  shows "py_strip (body @ nl) = body"
proof -
  from assms obtain b bs where b: "body = b # bs" by (cases body) auto
  have "dropWhile py_isspace (body @ nl) = body @ nl"
    using assms b by simp
  moreover have "dropWhile py_isspace (rev (body @ nl)) = rev body"
  proof -
    from assms(1) obtain ys y where ys: "body = ys @ [y]" by (cases body rule: rev_cases) auto
    then have r: "dropWhile py_isspace (rev body) = rev body"
      using assms(3) by simp
    from assms(4) show ?thesis
    proof
      assume "nl = []" with r show ?thesis by simp
    next
      assume "nl = [10]"
      moreover have "py_isspace 10" by (simp add: py_isspace_def)
      ultimately show ?thesis using r by simp
    qed
  qed
  ultimately show ?thesis by (simp add: py_strip_def)
qed

lemma decimal_of_str_shape:
  assumes ok: "digit_table_ok L" and sh: "decimal_shape L sg ip fr nl"
  shows "decimal_of_str L (sg @ ip @ fr @ nl) =
     Some ((if sg = [45] then - 1 else 1)
           * decimal_rat (digit_values L ip) (digit_values L (drop 1 fr)) 0)"
proof -
  note nd = table_nondigits[OF ok]
  from sh have ip: "ip \<noteq> []" "\<forall>c\<in>set ip. is_digit L c" by (auto simp: decimal_shape_def)
  have sh0: "decimal_shape L sg ip fr []" using sh by (simp add: decimal_shape_def)
  let ?body = "sg @ ip @ fr"
  have body: "?body \<noteq> []" using ip by simp
  have hd_digit: "is_digit L (hd ip)" using ip by (cases ip) auto
  have "\<not> py_isspace (hd ?body)"
  proof (cases "sg = []")
    case True
    with ip hd_digit show ?thesis by (simp add: digit_not_space[OF ok])
  next
    case False
    with sh have "sg = [45]" by (simp add: decimal_shape_def)
    then show ?thesis by (simp add: py_isspace_def)
  qed
  moreover have "\<not> py_isspace (last ?body)"
  proof (cases "fr = []")
    case True
    have "is_digit L (last ip)" using ip by simp
    with True ip show ?thesis by (simp add: digit_not_space[OF ok])
  next
    case False
    with sh obtain fp where fp: "fr = 46 # fp" "fp \<noteq> []" "\<forall>c\<in>set fp. is_digit L c"
      by (auto simp: decimal_shape_def)
    then have "is_digit L (last fp)" by simp
    with fp show ?thesis by (simp add: digit_not_space[OF ok])
  qed
  moreover have "nl = [] \<or> nl = [10]" using sh by (simp add: decimal_shape_def)
  ultimately have strip: "py_strip (?body @ nl) = ?body" by (intro py_strip_body body)
  have d: "hd ip \<noteq> 45 \<and> hd ip \<noteq> 43" using hd_digit nd by auto
  have sign: "split_sign ?body = (sg = [45], ip @ fr)"
  proof (cases "sg = []")
    case True
    with ip d show ?thesis by (cases ip) (auto simp: split_sign_def)
  next
    case False
    with sh have "sg = [45]" by (simp add: decimal_shape_def)
    then show ?thesis by (simp add: split_sign_def)
  qed
  have "decimal_of_str L (?body @ nl) =
      map_option (\<lambda>r. if sg = [45] then - r else r) (parse_floatnumber L (ip @ fr))"
    unfolding decimal_of_str_def strip sign by simp
  then show ?thesis by (simp add: parse_floatnumber_shape[OF ok sh0])
qed

lemma lazy_until_sound:
  "lazy_until close s = Some g \<Longrightarrow> \<exists>post. s = g @ close @ post \<and> 10 \<notin> set g"
proof (induction s arbitrary: g)
  case Nil
  then show ?case by (auto split: if_splits)
next
  case (Cons c cs)
  show ?case
  proof (cases "take (length close) (c # cs) = close")
    case True
    with Cons.prems have "g = []" by simp
    moreover from True have "c # cs = close @ drop (length close) (c # cs)"
      by (metis append_take_drop_id)
    ultimately show ?thesis by auto
  next
    case False
    with Cons.prems obtain g' where g': "c \<noteq> 10" "lazy_until close cs = Some g'" "g = c # g'"
      by (auto split: if_splits)
    from Cons.IH[OF g'(2)] obtain post where "cs = g' @ close @ post" "10 \<notin> set g'" by blast
    with g' show ?thesis by auto
  qed
qed

lemma lazy_until_complete:
  "10 \<notin> set g \<Longrightarrow> lazy_until close (g @ close @ post) \<noteq> None"
proof (induction g)
  case Nil
  show ?case
  proof (cases "close @ post")
    case Nil
    then show ?thesis by simp
  next
    case (Cons a list)
    have "take (length close) (close @ post) = close" by simp
    with Cons have "take (length close) (a # list) = close" by simp
    with Cons show ?thesis by simp
  qed
next
  case (Cons c g)
  then show ?case by auto
qed

lemma re_search_bold_sound:
  "re_search_bold s = Some g \<Longrightarrow>
   \<exists>pre post. s = pre @ ascii ''<b>'' @ g @ ascii ''</b>'' @ post \<and> 10 \<notin> set g"
proof (induction s)
  case Nil
  then show ?case by simp
next
  case (Cons c cs)
  show ?case
  proof (cases "take 3 (c # cs) = ascii ''<b>'' \<and> lazy_until (ascii ''</b>'') (drop 3 (c # cs)) \<noteq> None")
    case True
    with Cons.prems have g: "lazy_until (ascii ''</b>'') (drop 3 (c # cs)) = Some g"
      by (auto split: option.splits)
    from lazy_until_sound[OF g] obtain post where
      p: "drop 3 (c # cs) = g @ ascii ''</b>'' @ post" "10 \<notin> set g" by blast
    from True have "c # cs = ascii ''<b>'' @ drop 3 (c # cs)"
      by (metis append_take_drop_id)
    with p have "c # cs = [] @ ascii ''<b>'' @ g @ ascii ''</b>'' @ post" by simp
    with p(2) show ?thesis by blast
  next
    case False
    with Cons.prems have "re_search_bold cs = Some g"
      by (auto split: option.splits if_splits)
    from Cons.IH[OF this] obtain pre post where
      "cs = pre @ ascii ''<b>'' @ g @ ascii ''</b>'' @ post" "10 \<notin> set g" by blast
    then have "c # cs = (c # pre) @ ascii ''<b>'' @ g @ ascii ''</b>'' @ post \<and> 10 \<notin> set g"
      by simp
    then show ?thesis by blast
  qed
qed

lemma re_search_bold_complete:
  "10 \<notin> set g \<Longrightarrow> re_search_bold (pre @ ascii ''<b>'' @ g @ ascii ''</b>'' @ post) \<noteq> None"
proof (induction pre)
  case Nil
  have "lazy_until (ascii ''</b>'') (g @ ascii ''</b>'' @ post) \<noteq> None"
    by (rule lazy_until_complete[OF Nil])
  then show ?case by (auto simp: ascii_def)
next
  case (Cons c pre)
  then show ?case by (auto split: option.splits)
qed

lemma parse_row_accepted:
  assumes ok: "digit_table_ok L"
  shows "(\<exists>r. parse_row L ts row = Inr (Some r)) \<longleftrightarrow> row_accepted L row"
    and "\<not> row_accepted L row \<Longrightarrow> parse_row L ts row = Inr None"
proof -
  have val: "match_net_p L s \<Longrightarrow> decimal_of_str L s \<noteq> None" for s
  proof -
    assume "match_net_p L s"
    from shape_of_match[OF ok this] obtain sg ip fr nl where
      "s = sg @ ip @ fr @ nl" "decimal_shape L sg ip fr nl" by blast
    with decimal_of_str_shape[OF ok this(2)] show ?thesis by simp
  qed
  show "(\<exists>r. parse_row L ts row = Inr (Some r)) \<longleftrightarrow> row_accepted L row"
    using val[of "py_remove [44] (row ! 4)"]
    by (auto simp: parse_row_def row_accepted_def Let_def split: option.splits if_splits)
  show "\<not> row_accepted L row \<Longrightarrow> parse_row L ts row = Inr None"
    using val[of "py_remove [44] (row ! 4)"]
    by (auto simp: parse_row_def row_accepted_def Let_def split: option.splits if_splits)
qed

lemma parse_row_fields:
  "parse_row L ts row = Inr (Some r) \<Longrightarrow>
   DATETIME r = ts \<and> UNIT_NAME r = py_strip (row ! 2)
   \<and> Some (NET_P r) = decimal_of_str L (py_remove [44] (row ! 4))
   \<and> (\<exists>label. re_search_bold (row ! 0) = Some label
        \<and> FUEL_TYPE r = (case map_of fuel_map label of None \<Rightarrow> label | Some f \<Rightarrow> f))"
  by (auto simp: parse_row_def Let_def split: option.splits if_splits)

lemma parse_feed_units:
  assumes ok: "digit_table_ok L"
  shows "\<exists>recs. parse_feed L ts rows = Inr recs
     \<and> current_units recs = {py_strip (row ! 2) | row. row \<in> set rows \<and> row_accepted L row}"
proof (induction rows)
  case Nil
  show ?case by (simp add: current_units_def)
next
  case (Cons row rows)
  then obtain recs where recs: "parse_feed L ts rows = Inr recs"
    "current_units recs = {py_strip (r ! 2) | r. r \<in> set rows \<and> row_accepted L r}" by blast
  show ?case
  proof (cases "row_accepted L row")
    case True
    with parse_row_accepted(1)[OF ok, of ts row] obtain r where r: "parse_row L ts row = Inr (Some r)"
      by blast
    from parse_row_fields[OF r] have "UNIT_NAME r = py_strip (row ! 2)" by simp
    with r recs True have "parse_feed L ts (row # rows) = Inr (r # recs)
      \<and> current_units (r # recs) = {py_strip (r ! 2) | r. r \<in> set (row # rows) \<and> row_accepted L r}"
      by (auto simp: current_units_def)
    then show ?thesis by blast
  next
    case False
    from parse_row_accepted(2)[OF ok False, of ts] recs False
    have "parse_feed L ts (row # rows) = Inr recs
      \<and> current_units recs = {py_strip (r ! 2) | r. r \<in> set (row # rows) \<and> row_accepted L r}"
      by auto
    then show ?thesis by blast
  qed
qed

text \<open>
  C10. With the feed's fields as strings and the digit table as it is known, a row gives a
  record exactly when it has at least 5 fields, its unit name (field 2, stripped) is not
  empty and field 2 holds no subtotal marker, field 0 holds a bolded label (some
  \<^verbatim>\<open><b>\<close>, a text without newline, \<^verbatim>\<open></b>\<close>) that does not contain
  \<open>Load\<close>, and field 4 with its commas removed matches the pattern of an optionally
  negative decimal number: an optional minus, digits, optionally a point and digits (and,
  as \<^verbatim>\<open>$\<close> allows, one final newline). Every other row, one with a non-numeric power
  among them, gives no record and no error. The record carries the stripped unit name,
  the run's timestamp, the mapped fuel label and the decimal value of the power. The
  current unit set is the set of the unit names of the accepted rows, so a unit whose
  rows are all passed over is not in it.
\<close>

theorem feed_row_filter:
  assumes "digit_table_ok L"
  shows "((\<exists>r. parse_row L ts row = Inr (Some r)) \<longleftrightarrow> row_accepted L row)
    \<and> (\<not> row_accepted L row \<longrightarrow> parse_row L ts row = Inr None)
    \<and> (\<not> match_net_p L (py_remove [44] (row ! 4)) \<longrightarrow> parse_row L ts row = Inr None)
    \<and> (parse_row L ts row = Inr (Some r) \<longrightarrow>
          DATETIME r = ts \<and> UNIT_NAME r = py_strip (row ! 2)
          \<and> Some (NET_P r) = decimal_of_str L (py_remove [44] (row ! 4))
          \<and> (\<exists>label. re_search_bold (row ! 0) = Some label
               \<and> FUEL_TYPE r = (case map_of fuel_map label of None \<Rightarrow> label | Some f \<Rightarrow> f)))
    \<and> (match_net_p L s \<longleftrightarrow>
          (\<exists>sg ip fr nl. s = sg @ ip @ fr @ nl \<and> decimal_shape L sg ip fr nl))
    \<and> ((\<exists>label. re_search_bold b = Some label) \<longleftrightarrow>
          (\<exists>pre g post. b = pre @ ascii ''<b>'' @ g @ ascii ''</b>'' @ post \<and> 10 \<notin> set g))
    \<and> (\<exists>recs. parse_feed L ts rows = Inr recs
          \<and> current_units recs =
              {py_strip (row ! 2) | row. row \<in> set rows \<and> row_accepted L row})"
proof -
  have a: "(\<exists>r. parse_row L ts row = Inr (Some r)) \<longleftrightarrow> row_accepted L row"
    by (rule parse_row_accepted(1)[OF assms])
  have b: "\<not> row_accepted L row \<longrightarrow> parse_row L ts row = Inr None"
    using parse_row_accepted(2)[OF assms] by blast
  have c: "\<not> match_net_p L (py_remove [44] (row ! 4)) \<longrightarrow> parse_row L ts row = Inr None"
    using parse_row_accepted(2)[OF assms, of row ts] by (auto simp: row_accepted_def)
  have d: "parse_row L ts row = Inr (Some r) \<longrightarrow>
          DATETIME r = ts \<and> UNIT_NAME r = py_strip (row ! 2)
          \<and> Some (NET_P r) = decimal_of_str L (py_remove [44] (row ! 4))
          \<and> (\<exists>label. re_search_bold (row ! 0) = Some label
               \<and> FUEL_TYPE r = (case map_of fuel_map label of None \<Rightarrow> label | Some f \<Rightarrow> f))"
    using parse_row_fields by blast
  have e: "match_net_p L s \<longleftrightarrow>
          (\<exists>sg ip fr nl. s = sg @ ip @ fr @ nl \<and> decimal_shape L sg ip fr nl)"
    by (rule match_net_p_iff[OF assms])
  have f: "(\<exists>label. re_search_bold b = Some label) \<longleftrightarrow>
          (\<exists>pre g post. b = pre @ ascii ''<b>'' @ g @ ascii ''</b>'' @ post \<and> 10 \<notin> set g)"
  proof
    assume "\<exists>label. re_search_bold b = Some label"
    then obtain label where "re_search_bold b = Some label" by blast
    from re_search_bold_sound[OF this] show
      "\<exists>pre g post. b = pre @ ascii ''<b>'' @ g @ ascii ''</b>'' @ post \<and> 10 \<notin> set g" by blast
  next
    assume "\<exists>pre g post. b = pre @ ascii ''<b>'' @ g @ ascii ''</b>'' @ post \<and> 10 \<notin> set g"
    then obtain pre g post where
      "b = pre @ ascii ''<b>'' @ g @ ascii ''</b>'' @ post" "10 \<notin> set g" by blast
    with re_search_bold_complete[OF this(2), of pre post]
    show "\<exists>label. re_search_bold b = Some label" by auto
  qed
  have g: "\<exists>recs. parse_feed L ts rows = Inr recs
          \<and> current_units recs =
              {py_strip (row ! 2) | row. row \<in> set rows \<and> row_accepted L row}"
    by (rule parse_feed_units[OF assms])
  from a b c d e f g show ?thesis by blast
qed


lemma sample_lib_ok: "digit_table_ok sample_lib"
  by (auto simp: digit_table_ok_def sample_lib_def ascii_digit_def py_isspace_def)

lemma linkou_parts:
  "re_search_bold (ascii ''<b>'' @ [29123, 29028] @ ascii ''</b>'') = Some [29123, 29028]"
  "map_of fuel_map [29123, 29028] = Some ([29123, 29028] @ ascii ''(Coal)'')"
  "py_remove [44] (ascii ''1,234.5'') = ascii ''1234.5''"
  "match_net_p sample_lib (ascii ''1234.5'')"
  "decimal_of_str sample_lib (ascii ''1234.5'') = Some (2469 / 2)"
  "py_remove [44] (ascii ''N/A'') = ascii ''N/A''"
  "\<not> match_net_p sample_lib (ascii ''N/A'')"
  "\<not> match_net_p sample_lib []"
  by (simp_all add: ascii_def fuel_map_def py_remove_def match_net_p_def is_digit_def
      sample_lib_def ascii_digit_def at_end_def decimal_of_str_def py_strip_def py_isspace_def
      split_sign_def parse_floatnumber_def digitpart_def decimal_rat_def digits_nat_def)

lemma linkou_record: "parse_row sample_lib ts row_linkou = Inr (Some (record_linkou ts))"
  by (simp add: parse_row_def row_linkou_def record_linkou_def subtotal_def ascii_def fuel_map_def
      py_remove_def match_net_p_def is_digit_def sample_lib_def ascii_digit_def at_end_def
      decimal_of_str_def py_strip_def py_isspace_def split_sign_def parse_floatnumber_def
      digitpart_def decimal_rat_def digits_nat_def)


text \<open>
  The row of Linkou 1 at \<open>1,234.5\<close> gives a record of 1234.5 with the bilingual coal
  label; the row of Datan 2 at \<open>N/A\<close> gives none, and Datan 2 is not a current unit.
\<close>

theorem feed_row_filter_witness:
  "digit_table_ok sample_lib
   \<and> \<not> match_net_p sample_lib (py_remove [44] (row_datan ! 4))
   \<and> parse_row sample_lib 1704072600 row_datan = Inr None
   \<and> parse_row sample_lib 1704072600 row_linkou = Inr (Some (record_linkou 1704072600))
   \<and> parse_feed sample_lib 1704072600 [row_linkou, row_datan] = Inr [record_linkou 1704072600]
   \<and> current_units [record_linkou 1704072600] = {[26519, 21475, 35, 49]}"
proof -
  have na: "\<not> match_net_p sample_lib (py_remove [44] (row_datan ! 4))"
    by (simp add: row_datan_def linkou_parts)
  note filter = feed_row_filter[OF sample_lib_ok, of 1704072600 row_datan]
  from filter na have datan: "parse_row sample_lib 1704072600 row_datan = Inr None" by blast
  have "parse_feed sample_lib 1704072600 [row_linkou, row_datan] = Inr [record_linkou 1704072600]"
    by (simp add: linkou_record datan)
  moreover have "current_units [record_linkou 1704072600] = {[26519, 21475, 35, 49]}"
    by (simp add: current_units_def record_linkou_def)
  ultimately show ?thesis using sample_lib_ok na datan linkou_record by simp
qed

subsection \<open>Aggregation: conservation of power\<close>




subsection \<open>Persistence: one row per timestamp\<close>

lemma upsert_rows:
  "upsert ts grp existing = filter (\<lambda>r. AGG_DATETIME r \<noteq> ts) (table_rows existing) @ grp"
  by (simp add: upsert_def table_rows_def split: option.splits)

lemma persist_groups_at:
  assumes "\<forall>g\<in>set gs. \<forall>r\<in>set (snd g). AGG_DATETIME r = ts"
  shows "foldl (persist_group ts) st gs p =
     (case filter (\<lambda>g. table_path (fst g) = p) gs of
        [] \<Rightarrow> st p
      | h # hs \<Rightarrow> Some (filter (\<lambda>r. AGG_DATETIME r \<noteq> ts) (table_rows (st p)) @ snd (last (h # hs))))"
  using assms
proof (induction gs rule: rev_induct)
  case Nil
  show ?case by simp
next
  case (snoc g gs)
  let ?S = "foldl (persist_group ts) st gs"
  let ?F = "filter (\<lambda>r. AGG_DATETIME r \<noteq> ts) (table_rows (st p))"
  from snoc.prems have gs: "\<forall>g\<in>set gs. \<forall>r\<in>set (snd g). AGG_DATETIME r = ts" by simp
  note IH = snoc.IH[OF gs]
  show ?case
  proof (cases "table_path (fst g) = p")
    case False
    then have "foldl (persist_group ts) st (gs @ [g]) p = ?S p"
      by (simp add: persist_group_def)
    with IH False show ?thesis by simp
  next
    case True
    then have step: "foldl (persist_group ts) st (gs @ [g]) p
        = Some (filter (\<lambda>r. AGG_DATETIME r \<noteq> ts) (table_rows (?S p)) @ snd g)"
      by (simp add: persist_group_def upsert_rows)
    show ?thesis
    proof (cases "filter (\<lambda>g. table_path (fst g) = p) gs")
      case Nil
      with IH have "?S p = st p" by simp
      with step True Nil show ?thesis by simp
    next
      case (Cons h hs)
      with IH have S: "?S p = Some (?F @ snd (last (h # hs)))" by simp
      have "last (h # hs) \<in> set (filter (\<lambda>g. table_path (fst g) = p) gs)"
        unfolding Cons by (rule last_in_set) simp
      then have "last (h # hs) \<in> set gs" by simp
      with gs have "filter (\<lambda>r. AGG_DATETIME r \<noteq> ts) (snd (last (h # hs))) = []"
        by (auto simp: filter_empty_conv)
      with S have "filter (\<lambda>r. AGG_DATETIME r \<noteq> ts) (table_rows (?S p)) = ?F"
        by (simp add: table_rows_def)
      with step True Cons show ?thesis by simp
    qed
  qed
qed

lemma filter_key_single:
  "distinct (map f xs) \<Longrightarrow> a \<in> set xs \<Longrightarrow> filter (\<lambda>x. f x = f a) xs = [a]"
proof (induction xs)
  case Nil
  then show ?case by simp
next
  case (Cons x xs)
  show ?case
  proof (cases "x = a")
    case True
    with Cons.prems have "f a \<notin> f ` set xs" by simp
    then have "\<forall>y\<in>set xs. f y \<noteq> f a" by (metis imageI)
    then have "filter (\<lambda>x. f x = f a) xs = []" by (simp add: filter_empty_conv)
    with True show ?thesis by simp
  next
    case False
    with Cons.prems have "a \<in> set xs" "f x \<noteq> f a" by auto
    with Cons show ?thesis by simp
  qed
qed

lemma aggregate_keys:
  assumes "\<forall>r\<in>set rows. DATETIME (source r) = ts"
  shows "\<forall>a\<in>set (aggregate rows). AGG_DATETIME a = ts"
    and "distinct (map region_fuel (aggregate rows))"
proof -
  let ?ks = "sort (remdups (map group_key rows))"
  have fst_ks: "\<forall>k\<in>set ?ks. fst k = ts" using assms by (auto simp: group_key_def)
  show "\<forall>a\<in>set (aggregate rows). AGG_DATETIME a = ts"
    using fst_ks by (auto simp: aggregate_def aggregate_group_def)
  have "map region_fuel (aggregate rows) = map snd ?ks"
    by (simp add: aggregate_def region_fuel_def aggregate_group_def comp_def)
  moreover have "inj_on snd (set ?ks)"
    using fst_ks by (auto simp: inj_on_def prod_eq_iff)
  moreover have "distinct ?ks" by simp
  ultimately show "distinct (map region_fuel (aggregate rows))"
    by (simp add: distinct_map)
qed

lemma groups_single:
  assumes "distinct (map region_fuel agg)"
  shows "\<forall>g\<in>set (groups_by_region_fuel agg). \<exists>a\<in>set agg. g = (region_fuel a, [a])"
proof
  fix g assume "g \<in> set (groups_by_region_fuel agg)"
  then obtain a where a: "a \<in> set agg" "g = (region_fuel a, filter (\<lambda>x. region_fuel x = region_fuel a) agg)"
    by (auto simp: groups_by_region_fuel_def)
  with filter_key_single[OF assms a(1)] show "\<exists>a\<in>set agg. g = (region_fuel a, [a])" by auto
qed

lemma groups_cover:
  "a \<in> set agg \<Longrightarrow> \<exists>g\<in>set (groups_by_region_fuel agg). fst g = region_fuel a"
  by (auto simp: groups_by_region_fuel_def)

lemma persist_at:
  assumes ts: "\<forall>a\<in>set agg. AGG_DATETIME a = ts" and d: "distinct (map region_fuel agg)"
  shows "(\<forall>a\<in>set agg. table_path (region_fuel a) \<noteq> p) \<and> persist ts agg st p = st p
       \<or> (\<exists>a\<in>set agg. table_path (region_fuel a) = p
            \<and> persist ts agg st p
                = Some (filter (\<lambda>r. AGG_DATETIME r \<noteq> ts) (table_rows (st p)) @ [a]))"
proof -
  let ?gs = "groups_by_region_fuel agg"
  note single = groups_single[OF d]
  have all_ts: "\<forall>g\<in>set ?gs. \<forall>r\<in>set (snd g). AGG_DATETIME r = ts"
    using single ts by fastforce
  note at = persist_groups_at[OF all_ts, of st p]
  show ?thesis
  proof (cases "filter (\<lambda>g. table_path (fst g) = p) ?gs")
    case Nil
    then have "\<forall>g\<in>set ?gs. table_path (fst g) \<noteq> p" by (simp add: filter_empty_conv)
    with groups_cover[of _ agg] have "\<forall>a\<in>set agg. table_path (region_fuel a) \<noteq> p"
      by metis
    moreover from at Nil have "persist ts agg st p = st p" by (simp add: persist_def)
    ultimately show ?thesis by simp
  next
    case (Cons h hs)
    have "last (h # hs) \<in> set (filter (\<lambda>g. table_path (fst g) = p) ?gs)"
      unfolding Cons by (rule last_in_set) simp
    then have l: "last (h # hs) \<in> set ?gs" "table_path (fst (last (h # hs))) = p" by simp_all
    with single obtain a where a: "a \<in> set agg" "last (h # hs) = (region_fuel a, [a])" by blast
    with l have "table_path (region_fuel a) = p" by simp
    moreover from at Cons a have "persist ts agg st p
        = Some (filter (\<lambda>r. AGG_DATETIME r \<noteq> ts) (table_rows (st p)) @ [a])"
      by (simp add: persist_def)
    ultimately show ?thesis using a(1) by blast
  qed
qed

lemma persist_twice:
  assumes ts: "\<forall>a\<in>set agg. AGG_DATETIME a = ts" and d: "distinct (map region_fuel agg)"
  shows "persist ts agg (persist ts agg st) = persist ts agg st"
proof
  fix p
  let ?gs = "groups_by_region_fuel agg"
  let ?S = "persist ts agg st"
  have all_ts: "\<forall>g\<in>set ?gs. \<forall>r\<in>set (snd g). AGG_DATETIME r = ts"
    using groups_single[OF d] ts by fastforce
  note at1 = persist_groups_at[OF all_ts, of st p]
  note at2 = persist_groups_at[OF all_ts, of ?S p]
  show "persist ts agg ?S p = ?S p"
  proof (cases "filter (\<lambda>g. table_path (fst g) = p) ?gs")
    case Nil
    with at2 show ?thesis by (simp add: persist_def)
  next
    case (Cons h hs)
    let ?F = "filter (\<lambda>r. AGG_DATETIME r \<noteq> ts) (table_rows (st p))"
    from at1 Cons have S: "?S p = Some (?F @ snd (last (h # hs)))" by (simp add: persist_def)
    have "last (h # hs) \<in> set (filter (\<lambda>g. table_path (fst g) = p) ?gs)"
      unfolding Cons by (rule last_in_set) simp
    then have "last (h # hs) \<in> set ?gs" by simp
    with all_ts have "filter (\<lambda>r. AGG_DATETIME r \<noteq> ts) (snd (last (h # hs))) = []"
      by (auto simp: filter_empty_conv)
    with S have "filter (\<lambda>r. AGG_DATETIME r \<noteq> ts) (table_rows (?S p)) = ?F"
      by (simp add: table_rows_def)
    with at2 Cons S show ?thesis by (simp add: persist_def)
  qed
qed

lemma one_row_after:
  assumes "AGG_DATETIME a = ts" "one_row_per_timestamp t"
  shows "one_row_per_timestamp (filter (\<lambda>r. AGG_DATETIME r \<noteq> ts) t @ [a])"
proof -
  have "map AGG_DATETIME (filter (\<lambda>r. AGG_DATETIME r \<noteq> ts) t)
      = filter (\<lambda>x. x \<noteq> ts) (map AGG_DATETIME t)"
    by (simp add: filter_map comp_def)
  with assms show ?thesis by (auto simp: one_row_per_timestamp_def)
qed

text \<open>
  C2. Let the enriched records of a run all carry the run's timestamp. Persisting their
  aggregated rows leaves every table either untouched or rewritten as its old rows of
  other timestamps followed by one incoming row: a row that was there for the incoming
  timestamp is replaced, not duplicated. Every table a row is written to then holds
  exactly one row of that timestamp. Persisting the same rows a second time changes
  nothing, and if each table held at most one row per timestamp before, each holds at
  most one per timestamp after the two runs.
\<close>

theorem persist_one_row_per_timestamp:
  assumes "\<forall>r\<in>set rows. DATETIME (source r) = ts"
  shows "(\<forall>p. (\<forall>a\<in>set (aggregate rows). table_path (region_fuel a) \<noteq> p)
              \<and> persist ts (aggregate rows) st p = st p
            \<or> (\<exists>a\<in>set (aggregate rows). table_path (region_fuel a) = p
                 \<and> persist ts (aggregate rows) st p
                    = Some (filter (\<lambda>r. AGG_DATETIME r \<noteq> ts) (table_rows (st p)) @ [a])))
    \<and> (\<forall>a\<in>set (aggregate rows). \<exists>t.
          persist ts (aggregate rows) st (table_path (region_fuel a)) = Some t
          \<and> length (filter (\<lambda>r. AGG_DATETIME r = ts) t) = 1)
    \<and> persist ts (aggregate rows) (persist ts (aggregate rows) st) = persist ts (aggregate rows) st
    \<and> ((\<forall>p t. st p = Some t \<longrightarrow> one_row_per_timestamp t) \<longrightarrow>
        (\<forall>p t. persist ts (aggregate rows) (persist ts (aggregate rows) st) p = Some t
               \<longrightarrow> one_row_per_timestamp t))"
proof -
  let ?agg = "aggregate rows"
  note k = aggregate_keys[OF assms]
  note at = persist_at[OF k]
  have a: "\<forall>p. (\<forall>a\<in>set ?agg. table_path (region_fuel a) \<noteq> p) \<and> persist ts ?agg st p = st p
            \<or> (\<exists>a\<in>set ?agg. table_path (region_fuel a) = p
                 \<and> persist ts ?agg st p
                    = Some (filter (\<lambda>r. AGG_DATETIME r \<noteq> ts) (table_rows (st p)) @ [a]))"
    using at by blast
  have b: "\<forall>a\<in>set ?agg. \<exists>t. persist ts ?agg st (table_path (region_fuel a)) = Some t
          \<and> length (filter (\<lambda>r. AGG_DATETIME r = ts) t) = 1"
  proof
    fix a assume a_in: "a \<in> set ?agg"
    from at[of "table_path (region_fuel a)" st] a_in obtain a' where
      a': "a' \<in> set ?agg" "persist ts ?agg st (table_path (region_fuel a))
        = Some (filter (\<lambda>r. AGG_DATETIME r \<noteq> ts) (table_rows (st (table_path (region_fuel a)))) @ [a'])"
      by blast
    from a'(1) k(1) have "AGG_DATETIME a' = ts" by simp
    then have "length (filter (\<lambda>r. AGG_DATETIME r = ts)
        (filter (\<lambda>r. AGG_DATETIME r \<noteq> ts) (table_rows (st (table_path (region_fuel a)))) @ [a'])) = 1"
      by simp
    with a'(2) show "\<exists>t. persist ts ?agg st (table_path (region_fuel a)) = Some t
          \<and> length (filter (\<lambda>r. AGG_DATETIME r = ts) t) = 1" by simp
  qed
  have c: "persist ts ?agg (persist ts ?agg st) = persist ts ?agg st"
    by (rule persist_twice[OF k])
  have d: "(\<forall>p t. st p = Some t \<longrightarrow> one_row_per_timestamp t) \<longrightarrow>
        (\<forall>p t. persist ts ?agg (persist ts ?agg st) p = Some t \<longrightarrow> one_row_per_timestamp t)"
  proof (intro impI allI)
    fix p t
    assume inv: "\<forall>p t. st p = Some t \<longrightarrow> one_row_per_timestamp t"
      and t: "persist ts ?agg (persist ts ?agg st) p = Some t"
    from t c have t1: "persist ts ?agg st p = Some t" by simp
    have old: "one_row_per_timestamp (table_rows (st p))"
    proof (cases "st p")
      case None
      then show ?thesis by (simp add: table_rows_def one_row_per_timestamp_def)
    next
      case (Some x)
      with inv have "one_row_per_timestamp x" by blast
      with Some show ?thesis by (simp add: table_rows_def)
    qed
    from at[of p st] show "one_row_per_timestamp t"
    proof
      assume "(\<forall>a\<in>set ?agg. table_path (region_fuel a) \<noteq> p) \<and> persist ts ?agg st p = st p"
      with t1 have "st p = Some t" by simp
      with inv show ?thesis by blast
    next
      assume "\<exists>a\<in>set ?agg. table_path (region_fuel a) = p
                 \<and> persist ts ?agg st p
                    = Some (filter (\<lambda>r. AGG_DATETIME r \<noteq> ts) (table_rows (st p)) @ [a])"
      then obtain a where a: "a \<in> set ?agg"
        "persist ts ?agg st p = Some (filter (\<lambda>r. AGG_DATETIME r \<noteq> ts) (table_rows (st p)) @ [a])"
        by blast
      from a(1) k(1) have "AGG_DATETIME a = ts" by simp
      from one_row_after[OF this old] a(2) t1 show ?thesis by simp
    qed
  qed
  from a b c d show ?thesis by blast
qed

lemma drop_parens_numeral [simp]:
  "drop_parens (numeral n) (c # cs) = drop_parens (pred_numeral n) cs"
  by (simp add: numeral_eq_Suc)

lemma sample_aggregate: "aggregate sample_enriched = [coal_row 1704072600 (2469 / 2)]"
  by (simp add: aggregate_def sample_enriched_def group_key_def record_linkou_def
      aggregate_group_def coal_row_def no_weather_def column_def first_float_def first_int_def)

lemma sanitize_samples:
  "sanitize_name North = North"
  "sanitize_name ([29123, 29028] @ ascii ''(Coal)'') = [29123, 29028]"
  by (simp_all add: sanitize_name_def North_def ascii_def invalid_char_def py_strip_def
      py_isspace_def)

lemma sample_path: "table_path (region_fuel (coal_row ts p)) = (North, [29123, 29028])"
  using sanitize_samples by (simp add: table_path_def region_fuel_def coal_row_def)

lemma sample_persist:
  "persist 1704072600 (aggregate sample_enriched) sample_store (North, [29123, 29028])
     = Some [coal_row 1704072000 1000, coal_row 1704072600 (2469 / 2)]"
proof -
  have g: "groups_by_region_fuel [coal_row 1704072600 (2469 / 2)]
      = [(region_fuel (coal_row 1704072600 (2469 / 2)), [coal_row 1704072600 (2469 / 2)])]"
    by (simp add: groups_by_region_fuel_def)
  have "upsert 1704072600 [coal_row 1704072600 (2469 / 2)] (sample_store (North, [29123, 29028]))
      = [coal_row 1704072000 1000, coal_row 1704072600 (2469 / 2)]"
    by (simp add: upsert_def sample_store_def coal_row_def)
  then show ?thesis
    unfolding sample_aggregate persist_def g
    by (simp add: persist_group_def sample_path)
qed

text \<open>
  The North coal table holds rows of 09:20 and 09:30; the run of 09:30 replaces the
  latter, and a second run leaves the table as the first did.
\<close>

theorem persist_one_row_per_timestamp_witness:
  "persist 1704072600 (aggregate sample_enriched) sample_store (North, [29123, 29028])
     = Some [coal_row 1704072000 1000, coal_row 1704072600 (2469 / 2)]
   \<and> persist 1704072600 (aggregate sample_enriched)
        (persist 1704072600 (aggregate sample_enriched) sample_store) (North, [29123, 29028])
     = Some [coal_row 1704072000 1000, coal_row 1704072600 (2469 / 2)]
   \<and> one_row_per_timestamp [coal_row 1704072000 1000, coal_row 1704072600 (2469 / 2)]"
proof -
  have rows: "\<forall>r\<in>set sample_enriched. DATETIME (source r) = 1704072600"
    by (simp add: sample_enriched_def record_linkou_def)
  have inv: "\<forall>p t. sample_store p = Some t \<longrightarrow> one_row_per_timestamp t"
    by (simp add: sample_store_def one_row_per_timestamp_def coal_row_def)
  note pol = persist_one_row_per_timestamp[OF rows, of sample_store]
  from pol have twice: "persist 1704072600 (aggregate sample_enriched)
        (persist 1704072600 (aggregate sample_enriched) sample_store)
      = persist 1704072600 (aggregate sample_enriched) sample_store" by blast
  from pol inv have "\<forall>p t. persist 1704072600 (aggregate sample_enriched)
        (persist 1704072600 (aggregate sample_enriched) sample_store) p = Some t
      \<longrightarrow> one_row_per_timestamp t" by blast
  with twice sample_persist
  have "one_row_per_timestamp [coal_row 1704072000 1000, coal_row 1704072600 (2469 / 2)]"
    by simp
  with twice sample_persist show ?thesis by simp
qed

subsection \<open>The pipeline driver: state recovery and failure\<close>

lemma log_units_keeps [simp]:
  "state_file (log_units ts merged w) = state_file w"
  "fluctuation_log (log_units ts merged w) = fluctuation_log w"
  "tables (log_units ts merged w) = tables w"
  by (simp_all add: log_units_def)

lemma track_units_keeps [simp]:
  "tables (track_units ts records w) = tables w"
  "state_file (track_units ts records w) = Contents (remdups (map UNIT_NAME records))"
  by (simp_all add: track_units_def Let_def)



















end
